theory Spec2Isabelle
  imports Complex_Main "HOL-Library.List_Lexorder" "HOL-Library.Char_ord" "HOL-Library.Multiset"
begin

section \<open>Errors thrown by the store and by collaborators\<close>

text \<open>
  A rejected promise carries an error object; the code inspects \<^verbatim>\<open>e?.code\<close> and
  \<^verbatim>\<open>e?.message\<close> only. An absent code is the empty string.
\<close>

datatype err = Err (code: string) (message: string)

text \<open>\<^verbatim>\<open>String.prototype.includes\<close>: the pattern occurs as a contiguous substring.\<close>

fun starts_with :: "string \<Rightarrow> string \<Rightarrow> bool" where
  "starts_with s [] = True"
| "starts_with [] (p # ps) = False"
| "starts_with (c # cs) (p # ps) = (c = p \<and> starts_with cs ps)"

fun str_includes :: "string \<Rightarrow> string \<Rightarrow> bool" where
  "str_includes [] p = (p = [])"
| "str_includes (c # cs) p = (starts_with (c # cs) p \<or> str_includes cs p)"

text \<open>
  The test of both catch blocks of \<^verbatim>\<open>evaluateAndUnlockBadges\<close>:
  \<^verbatim>\<open>e?.code === "permission-denied" || String(e?.message || "").includes("insufficient permissions")\<close>.
\<close>

definition is_permission_error :: "err \<Rightarrow> bool" where
  "is_permission_error e =
     (code e = ''permission-denied'' \<or> str_includes (message e) ''insufficient permissions'')"

section \<open>Badges: the unlock transaction (src/services/badges.js)\<close>

text \<open>
  \<^verbatim>\<open>users/{uid}/badges/{badgeId}: { unlockedAt: TS, seen: bool, seenAt?: TS }\<close>.
  Timestamps are natural numbers.
\<close>

record badge_doc =
  unlockedAt :: "nat option"
  seen :: bool
  seenAt :: "nat option"

text \<open>
  A JavaScript id is missing when it is \<^verbatim>\<open>null\<close>/\<^verbatim>\<open>undefined\<close> (here \<open>None\<close>)
  or the empty string; \<^verbatim>\<open>!uid\<close> is true exactly then.
\<close>

fun truthy :: "string option \<Rightarrow> bool" where
  "truthy None = False"
| "truthy (Some s) = (s \<noteq> [])"

text \<open>
  Calls the code makes to its collaborators, in order: the store transaction with its
  read and write, the server notification route and the local fallback notification.
\<close>

datatype event =
    RunTransaction string string
  | TxGet string string
  | TxSet string string badge_doc
  | NotifyBadgeUnlocked string string
  | CreateAndPushNotification string string string

text \<open>
  The state the module works on: the badge documents of the store, keyed by the document
  path \<open>(uid, badgeId)\<close>, the module-level set \<^verbatim>\<open>inFlightUnlocks\<close>, and the
  calls made so far.
\<close>

record state =
  badges :: "string \<times> string \<rightharpoonup> badge_doc"
  inFlightUnlocks :: "string set"
  trace :: "event list"

text \<open>
  What one call of \<^verbatim>\<open>unlock\<close> meets outside the code: the server's clock, whether the
  transaction is rejected (and with which error), and whether each notification call throws.
\<close>

record unlock_env =
  serverTimestamp :: nat
  tx_fault :: "err option"
  server_fault :: "err option"
  local_fault :: "err option"

definition BADGE_META :: "(string \<times> string) list" where
  "BADGE_META = [
    (''streak1'', ''1-Day Streak''),
    (''streak2'', ''2-Day Streak''),
    (''streak3'', ''3-Day Streak''),
    (''streak5'', ''5-Day Streak''),
    (''streak10'', ''10-Day Streak''),
    (''streak20'', ''20-Day Streak''),
    (''streak30'', ''30-Day Streak''),
    (''streak50'', ''50-Day Streak''),
    (''streak75'', ''75-Day Streak''),
    (''streak100'', ''100-Day Streak''),
    (''streak200'', ''200-Day Streak''),
    (''streak365'', ''365-Day Streak''),
    (''streak500'', ''500-Day Streak''),
    (''streak600'', ''600-Day Streak''),
    (''streak700'', ''700-Day Streak''),
    (''streak800'', ''800-Day Streak''),
    (''streak900'', ''900-Day Streak''),
    (''streak1000'', ''1000-Day Streak''),
    (''log'', ''Make 10 Daily Logs''),
    (''log2'', ''Make 30 Daily Logs''),
    (''log3'', ''Make 100 Daily Logs''),
    (''ai1'', ''10 AI Coach Messages''),
    (''ai2'', ''30 AI Coach Messages''),
    (''ai3'', ''100 AI Coach Messages''),
    (''hypnosis1'', ''Listen to 2 Hypnosis Sessions''),
    (''hypnosis2'', ''Listen to 6 Hypnosis Sessions''),
    (''hypnosis3'', ''Listen to 10 Hypnosis Sessions''),
    (''saving'', [CHR 0xC3, CHR 0xA2, CHR 0xE2, CHR 0x80, CHR 0x9A, CHR 0xC2, CHR 0xAC] @ ''100 Saved''),
    (''saving2'', [CHR 0xC3, CHR 0xA2, CHR 0xE2, CHR 0x80, CHR 0x9A, CHR 0xC2, CHR 0xAC] @ ''500 Saved''),
    (''saving3'', [CHR 0xC3, CHR 0xA2, CHR 0xE2, CHR 0x80, CHR 0x9A, CHR 0xC2, CHR 0xAC] @ ''1000 Saved''),
    (''welcome'', ''Welcome to the Club''),
    (''leader_points_1'', ''Leaderboard #1 (Points)''),
    (''leader_points_2'', ''Leaderboard #2 (Points)''),
    (''leader_points_3'', ''Leaderboard #3 (Points)''),
    (''leader_streak_1'', ''Leaderboard #1 (Streak)''),
    (''leader_streak_2'', ''Leaderboard #2 (Streak)''),
    (''leader_streak_3'', ''Leaderboard #3 (Streak)''),
    (''leader_saved_1'', ''Leaderboard #1 (Saved)''),
    (''leader_saved_2'', ''Leaderboard #2 (Saved)''),
    (''leader_saved_3'', ''Leaderboard #3 (Saved)''),
    (''challenge30'', ''Complete 30 Challenges''),
    (''challenge60'', ''Complete 60 Challenges''),
    (''challenge90'', ''Complete 90 Challenges''),
    (''health'', ''Health Milestone: 2'' @ [CHR 0xC3, CHR 0xA2, CHR 0xE2, CHR 0x82, CHR 0xAC, CHR 0xE2, CHR 0x80, CHR 0x9C] @ ''12 Weeks''),
    (''health2'', ''Health Milestone: 1 Month''),
    (''health3'', ''Health Milestone: 6 Months'')]"

definition log_event :: "event \<Rightarrow> state \<Rightarrow> state" where
  "log_event ev s = s\<lparr>trace := trace s @ [ev]\<rparr>"

text \<open>The document written by \<^verbatim>\<open>tx.set(ref, {unlockedAt: serverTimestamp(), seen: false}, {merge: true})\<close>
  when no document exists at \<open>ref\<close>.\<close>

definition new_badge :: "unlock_env \<Rightarrow> badge_doc" where
  "new_badge e = \<lparr>unlockedAt = Some (serverTimestamp e), seen = False, seenAt = None\<rparr>"

text \<open>
  \<^verbatim>\<open>runTransaction(db, async (tx) => { snap = await tx.get(ref); if (snap.exists()) return false;
  tx.set(ref, ...); return true; })\<close>.
  The callback runs as one atomic unit on the store; a rejected transaction commits nothing.
\<close>

definition unlock_tx :: "unlock_env \<Rightarrow> string \<Rightarrow> string \<Rightarrow> state \<Rightarrow> (err + bool) \<times> state" where
  "unlock_tx e uid badgeId s =
     (let s1 = log_event (RunTransaction uid badgeId) s in
      case tx_fault e of
        Some x \<Rightarrow> (Inl x, s1)
      | None \<Rightarrow>
          (let s2 = log_event (TxGet uid badgeId) s1 in
           case badges s2 (uid, badgeId) of
             Some d \<Rightarrow> (Inr False, s2)
           | None \<Rightarrow>
               (Inr True,
                log_event (TxSet uid badgeId (new_badge e))
                  (s2\<lparr>badges := (badges s2)((uid, badgeId) \<mapsto> new_badge e)\<rparr>))))"

text \<open>\<^verbatim>\<open>const meta = BADGE_META[badgeId] || {}; meta.title || ""\<close>\<close>

definition meta_title :: "string \<Rightarrow> string" where
  "meta_title badgeId = (case map_of BADGE_META badgeId of Some t \<Rightarrow> t | None \<Rightarrow> [])"

definition fallback_body :: "string \<Rightarrow> string" where
  "fallback_body badgeId =
     (if meta_title badgeId \<noteq> [] then ''You unlocked: '' @ meta_title badgeId
      else ''You unlocked a badge '' @ [CHR 0xC3, CHR 0xB0, CHR 0xC5, CHR 0xB8, CHR 0xC5, CHR 0xBD, CHR 0xE2, CHR 0x80, CHR 0xB0])"

text \<open>
  The two notification attempts after a committed write. Both are wrapped in their own
  \<^verbatim>\<open>try/catch\<close>: the server route first; when it throws, the local fallback once;
  when that throws too, the error is logged and dropped.
\<close>

definition notify :: "unlock_env \<Rightarrow> string \<Rightarrow> state \<Rightarrow> state" where
  "notify e badgeId s =
     (let s1 = log_event (NotifyBadgeUnlocked badgeId (meta_title badgeId)) s in
      case server_fault e of
        None \<Rightarrow> s1
      | Some x \<Rightarrow>
          (let s2 = log_event (CreateAndPushNotification ''New badge unlocked!'' (fallback_body badgeId) badgeId) s1 in
           case local_fault e of None \<Rightarrow> s2 | Some y \<Rightarrow> s2))"

text \<open>
  The objects \<^verbatim>\<open>unlock\<close> returns: \<^verbatim>\<open>{id}\<close>, \<^verbatim>\<open>{id, deduped: true}\<close> and
  \<^verbatim>\<open>{id, skipped: "missing" | "inflight"}\<close>.
\<close>

datatype unlock_result =
    Unlocked string
  | Deduped string
  | Skipped "string option" string

text \<open>The body of the \<^verbatim>\<open>try\<close> block with its \<^verbatim>\<open>catch\<close>.\<close>

definition unlock_try :: "unlock_env \<Rightarrow> string \<Rightarrow> string \<Rightarrow> state \<Rightarrow> (err + unlock_result) \<times> state" where
  "unlock_try e uid badgeId s =
     (case unlock_tx e uid badgeId s of
        (Inl x, s1) \<Rightarrow>
          (if code x = ''already-exists'' then (Inr (Deduped badgeId), s1) else (Inl x, s1))
      | (Inr wrote, s1) \<Rightarrow>
          (if \<not> wrote then (Inr (Deduped badgeId), s1)
           else (Inr (Unlocked badgeId), notify e badgeId s1)))"

text \<open>
  \<^verbatim>\<open>unlock(uid, badgeId)\<close>: the two guards, then the \<^verbatim>\<open>try\<close> block between
  \<^verbatim>\<open>inFlightUnlocks.add\<close> and the \<^verbatim>\<open>finally\<close> that deletes the id again.
\<close>

definition unlock :: "unlock_env \<Rightarrow> string option \<Rightarrow> string option \<Rightarrow> state \<Rightarrow> (err + unlock_result) \<times> state" where
  "unlock e uid badgeId s =
     (if \<not> truthy uid \<or> \<not> truthy badgeId then (Inr (Skipped badgeId ''missing''), s)
      else if the badgeId \<in> inFlightUnlocks s then (Inr (Skipped badgeId ''inflight''), s)
      else
        (let s1 = s\<lparr>inFlightUnlocks := insert (the badgeId) (inFlightUnlocks s)\<rparr>;
             (r, s2) = unlock_try e (the uid) (the badgeId) s1
         in (r, s2\<lparr>inFlightUnlocks := inFlightUnlocks s2 - {the badgeId}\<rparr>)))"

text \<open>Calls of \<^verbatim>\<open>unlock\<close> with the same arguments, one after the other, each awaited.\<close>

fun unlock_calls :: "unlock_env list \<Rightarrow> string option \<Rightarrow> string option \<Rightarrow> state \<Rightarrow> (err + unlock_result) list \<times> state" where
  "unlock_calls [] uid badgeId s = ([], s)"
| "unlock_calls (e # es) uid badgeId s =
     (let (r, s1) = unlock e uid badgeId s;
          (rs, s2) = unlock_calls es uid badgeId s1
      in (r # rs, s2))"

text \<open>Classifying the recorded calls.\<close>

fun is_create :: "string \<Rightarrow> string \<Rightarrow> event \<Rightarrow> bool" where
  "is_create u b (TxSet u' b' d) = (u' = u \<and> b' = b)"
| "is_create u b ev = False"

fun is_server_notify :: "event \<Rightarrow> bool" where
  "is_server_notify (NotifyBadgeUnlocked b t) = True"
| "is_server_notify ev = False"

fun is_local_notify :: "event \<Rightarrow> bool" where
  "is_local_notify (CreateAndPushNotification t body b) = True"
| "is_local_notify ev = False"

definition is_notification :: "event \<Rightarrow> bool" where
  "is_notification ev = (is_server_notify ev \<or> is_local_notify ev)"

text \<open>\<^verbatim>\<open>isUnlocked(uid, badgeId)\<close>: \<^verbatim>\<open>(await getDoc(badgeDoc(uid, badgeId))).exists()\<close>;
  the read may be rejected.\<close>

definition isUnlocked :: "err option \<Rightarrow> string \<Rightarrow> string \<Rightarrow> state \<Rightarrow> err + bool" where
  "isUnlocked fault uid badgeId s =
     (case fault of Some x \<Rightarrow> Inl x | None \<Rightarrow> Inr (badges s (uid, badgeId) \<noteq> None))"

section \<open>JavaScript numbers\<close>

text \<open>
  A JavaScript number is an IEEE 754 binary64 value: \<^verbatim>\<open>NaN\<close>, an infinity, or a finite
  value \<open>Fin x\<close> with \<open>x\<close> the rational it denotes. The two zeros are one value here
  (\<^verbatim>\<open>-0 === 0\<close>, and both are falsy); where the sign of a zero divisor would matter it is
  taken positive.
\<close>

datatype jsnum = NaN | PInf | NInf | Fin rat

text \<open>The number of binary digits of a positive integer.\<close>

function bit_length :: "int \<Rightarrow> nat" where
  "bit_length n = (if n \<le> 0 then 0 else Suc (bit_length (n div 2)))"
  by pat_completeness auto
termination
  by (relation "measure nat") auto

definition pow2 :: "int \<Rightarrow> rat" where
  "pow2 k = (if 0 \<le> k then of_int (2 ^ nat k) else 1 / of_int (2 ^ nat (- k)))"

text \<open>The binary exponent of a non-zero rational: \<open>2 ^ e \<le> \<bar>x\<bar> < 2 ^ (e + 1)\<close>.\<close>

definition exponent_of :: "rat \<Rightarrow> int" where
  "exponent_of x =
     (let (p, q) = quotient_of \<bar>x\<bar>;
          k = int (bit_length p) - int (bit_length q)
      in if pow2 k \<le> \<bar>x\<bar> then k else k - 1)"

definition round_half_even :: "rat \<Rightarrow> int" where
  "round_half_even x =
     (let f = \<lfloor>x\<rfloor>; r = x - of_int f
      in if r < 1 / 2 then f else if 1 / 2 < r then f + 1 else if even f then f else f + 1)"

text \<open>
  Rounding an exact result to binary64, to nearest with ties to even: 53 significant
  bits, gradual underflow below \<open>2 ^ - 1022\<close>, overflow to an infinity when the rounded
  magnitude reaches \<open>2 ^ 1024\<close>.
\<close>

definition fl :: "rat \<Rightarrow> jsnum" where
  "fl x =
     (if x = 0 then Fin 0
      else (let e = max (exponent_of x) (- 1022)
            in if 1023 < e then (if 0 < x then PInf else NInf)
               else (let u = pow2 (e - 52);
                         n = round_half_even (x / u)
                     in if e = 1023 \<and> 2 ^ 53 \<le> \<bar>n\<bar> then (if 0 < x then PInf else NInf)
                        else Fin (of_int n * u))))"

definition signum :: "jsnum \<Rightarrow> int" where
  "signum a =
     (case a of NaN \<Rightarrow> 0 | PInf \<Rightarrow> 1 | NInf \<Rightarrow> - 1
      | Fin x \<Rightarrow> if 0 < x then 1 else if x < 0 then - 1 else 0)"

definition inf_of :: "int \<Rightarrow> jsnum" where
  "inf_of s = (if s = 0 then NaN else if 0 < s then PInf else NInf)"

text \<open>The operators \<^verbatim>\<open>/\<close> and \<^verbatim>\<open>*\<close> on numbers.\<close>

definition fdiv :: "jsnum \<Rightarrow> jsnum \<Rightarrow> jsnum" where
  "fdiv a b =
     (case (a, b) of
        (NaN, _) \<Rightarrow> NaN
      | (_, NaN) \<Rightarrow> NaN
      | (Fin x, Fin y) \<Rightarrow> if y = 0 then inf_of (signum a) else fl (x / y)
      | (Fin x, _) \<Rightarrow> Fin 0
      | (_, Fin y) \<Rightarrow> inf_of (signum a * (if y < 0 then - 1 else 1))
      | (_, _) \<Rightarrow> NaN)"

definition fmul :: "jsnum \<Rightarrow> jsnum \<Rightarrow> jsnum" where
  "fmul a b =
     (case (a, b) of
        (NaN, _) \<Rightarrow> NaN
      | (_, NaN) \<Rightarrow> NaN
      | (Fin x, Fin y) \<Rightarrow> fl (x * y)
      | (_, _) \<Rightarrow> inf_of (signum a * signum b))"

text \<open>\<^verbatim>\<open>Math.round\<close>: the nearest integer, ties towards \<open>+\<infinity>\<close>; \<^verbatim>\<open>NaN\<close> and the
  infinities are returned as they are.\<close>

definition Math_round :: "jsnum \<Rightarrow> jsnum" where
  "Math_round a = (case a of Fin x \<Rightarrow> Fin (of_int \<lfloor>x + 1 / 2\<rfloor>) | _ \<Rightarrow> a)"

text \<open>\<^verbatim>\<open>!x\<close> on a number: 0 and \<^verbatim>\<open>NaN\<close> are falsy.\<close>

definition falsy_num :: "jsnum \<Rightarrow> bool" where
  "falsy_num a = (a = NaN \<or> a = Fin 0)"

text \<open>\<^verbatim>\<open>x >= c\<close> for a finite constant \<open>c\<close>: false on \<^verbatim>\<open>NaN\<close>.\<close>

definition num_ge :: "jsnum \<Rightarrow> rat \<Rightarrow> bool" where
  "num_ge a c = (case a of NaN \<Rightarrow> False | PInf \<Rightarrow> True | NInf \<Rightarrow> False | Fin x \<Rightarrow> c \<le> x)"

section \<open>Savings (computeSavingsEuros)\<close>

text \<open>
  The fields of \<^verbatim>\<open>users/{uid}\<close> the evaluator reads. A field that is absent is \<open>None\<close>.
  The three consumption fields hold numbers: the profile page writes them as
  \<^verbatim>\<open>Number(formData.f) || 0\<close> (\<^verbatim>\<open>|| 20\<close> for the pack size).
\<close>

record profile =
  createdAt :: "nat option"
  quit_date :: "string option"
  cigarettes_per_day_before :: "jsnum option"
  cost_per_pack :: "jsnum option"
  cigarettes_per_pack :: "jsnum option"
  ai_messages_count :: "int option"
  audio_sessions_count :: "int option"
  health_stage_id :: "string option"

text \<open>\<^verbatim>\<open>Number(profile?.f || d)\<close>: a missing profile, a missing field and the number 0
  are all falsy and give the default.\<close>

definition number_or :: "('a::zero) option \<Rightarrow> 'a \<Rightarrow> 'a" where
  "number_or v d = (case v of None \<Rightarrow> d | Some x \<Rightarrow> if x = 0 then d else x)"

text \<open>The same on a field that holds a double: \<^verbatim>\<open>NaN\<close> is falsy as well.\<close>

definition jsnum_or :: "jsnum option \<Rightarrow> jsnum \<Rightarrow> jsnum" where
  "jsnum_or v d = (case v of None \<Rightarrow> d | Some x \<Rightarrow> if falsy_num x then d else x)"

text \<open>
  \<^verbatim>\<open>computeSavingsEuros(profile, streakDays)\<close>. \<open>streakDays\<close> is a whole number of days (the
  evaluator passes the day count of the streak, which is far below \<open>2 ^ 53\<close> and so a
  double as it stands); the product is evaluated from the left,
  \<^verbatim>\<open>(packsPerDay * pricePerPack) * streakDays\<close>, and every operation rounds to a double.
\<close>

definition computeSavingsEuros :: "profile option \<Rightarrow> int \<Rightarrow> jsnum" where
  "computeSavingsEuros p streakDays =
     (let cpd = jsnum_or (Option.bind p cigarettes_per_day_before) (Fin 0);
          pricePerPack = jsnum_or (Option.bind p cost_per_pack) (Fin 0);
          cigsPerPack = jsnum_or (Option.bind p cigarettes_per_pack) (Fin 20)
      in if falsy_num cigsPerPack \<or> falsy_num pricePerPack \<or> falsy_num cpd then Fin 0
         else (let packsPerDay = fdiv cpd cigsPerPack
               in Math_round (fmul (fmul packsPerDay pricePerPack) (Fin (of_int streakDays)))))"

section \<open>Leaderboard rank (getLeaderboardRankTop3)\<close>

text \<open>\<^verbatim>\<open>leaderboard/{uid}: { points, streak, saved, ... }\<close>, with an optional explicit
  \<^verbatim>\<open>uid\<close> field.\<close>

record lb_row =
  doc_id :: string
  row_uid :: "string option"
  points :: "int option"
  streak :: "int option"
  saved :: "int option"

definition lb_field :: "string \<Rightarrow> lb_row \<Rightarrow> int option" where
  "lb_field f r =
     (if f = ''points'' then points r
      else if f = ''streak'' then streak r
      else if f = ''saved'' then saved r
      else None)"

text \<open>
  \<^verbatim>\<open>query(col, orderBy(field, "desc"), limit(3))\<close>: the documents that have the field,
  largest value first, the first three of them. Rows with equal values keep the order the
  store lists them in.
\<close>

definition orderBy_desc :: "string \<Rightarrow> lb_row list \<Rightarrow> lb_row list" where
  "orderBy_desc f rows = sort_key (\<lambda>r. - the (lb_field f r)) (filter (\<lambda>r. lb_field f r \<noteq> None) rows)"

definition query_top3 :: "string \<Rightarrow> lb_row list \<Rightarrow> lb_row list" where
  "query_top3 f rows = take 3 (orderBy_desc f rows)"

text \<open>\<^verbatim>\<open>row.uid || docSnap.id\<close>\<close>

definition docUid :: "lb_row \<Rightarrow> string" where
  "docUid r = (case row_uid r of None \<Rightarrow> doc_id r | Some v \<Rightarrow> if v = [] then doc_id r else v)"

text \<open>One round of \<^verbatim>\<open>snap.forEach\<close> on the pair \<open>(rank, pos)\<close>.\<close>

definition rank_step :: "string \<Rightarrow> nat option \<times> nat \<Rightarrow> lb_row \<Rightarrow> nat option \<times> nat" where
  "rank_step uid rp row =
     (let pos = snd rp + 1
      in (if docUid row = uid \<and> fst rp = None then Some pos else fst rp, pos))"

definition getLeaderboardRankTop3 :: "err option \<Rightarrow> lb_row list \<Rightarrow> string \<Rightarrow> string \<Rightarrow> err + nat option" where
  "getLeaderboardRankTop3 fault rows f uid =
     (case fault of
        Some x \<Rightarrow> Inl x
      | None \<Rightarrow> Inr (fst (foldl (rank_step uid) (None, 0) (query_top3 f rows))))"

text \<open>
  The contract in the specification's words: the 1-based position of the first of the given
  rows whose uid is the user's, or nothing.
\<close>

definition spec_rank :: "lb_row list \<Rightarrow> string \<Rightarrow> nat option" where
  "spec_rank rows uid =
     (if \<exists>r \<in> set rows. docUid r = uid
      then Some (Suc (length (takeWhile (\<lambda>r. docUid r \<noteq> uid) rows)))
      else None)"

section \<open>Daily logs (src/services/dailyLogs.js)\<close>

text \<open>
  \<^verbatim>\<open>users/{uid}/dailyLogs/{YYYY-MM-DD}\<close>. Every field is optional, so that documents
  written before the normalisation (or by other writers) can be represented. The same
  record is the \<^verbatim>\<open>data\<close> argument of \<^verbatim>\<open>upsertDailyLog\<close>, where \<open>smoke_free = None\<close>
  stands for a value that is absent or not a boolean.
\<close>

record log_doc =
  date :: "string option"
  cigarettes_smoked :: "int option"
  smoke_free :: "bool option"
  cravings_count :: "int option"
  mood_rating :: "int option"
  stress_level :: "int option"
  log_notes :: "string option"
  log_createdAt :: "nat option"
  log_updatedAt :: "nat option"

text \<open>The daily-log collections of the store: for each uid the documents, each under its id.\<close>

type_synonym logs_store = "string \<Rightarrow> (string \<times> log_doc) list"

definition merge_field :: "'a option \<Rightarrow> 'a option \<Rightarrow> 'a option" where
  "merge_field new old = (case new of Some v \<Rightarrow> Some v | None \<Rightarrow> old)"

text \<open>\<^verbatim>\<open>setDoc(ref, data, {merge: true})\<close> on an existing document: the fields given replace
  the stored ones, the others stay.\<close>

definition merge_log :: "log_doc \<Rightarrow> log_doc \<Rightarrow> log_doc" where
  "merge_log new old =
     \<lparr>date = merge_field (date new) (date old),
      cigarettes_smoked = merge_field (cigarettes_smoked new) (cigarettes_smoked old),
      smoke_free = merge_field (smoke_free new) (smoke_free old),
      cravings_count = merge_field (cravings_count new) (cravings_count old),
      mood_rating = merge_field (mood_rating new) (mood_rating old),
      stress_level = merge_field (stress_level new) (stress_level old),
      log_notes = merge_field (log_notes new) (log_notes old),
      log_createdAt = merge_field (log_createdAt new) (log_createdAt old),
      log_updatedAt = merge_field (log_updatedAt new) (log_updatedAt old)\<rparr>"

fun setDoc_merge :: "string \<Rightarrow> log_doc \<Rightarrow> (string \<times> log_doc) list \<Rightarrow> (string \<times> log_doc) list" where
  "setDoc_merge k new [] = [(k, new)]"
| "setDoc_merge k new ((k', old) # ds) =
     (if k' = k then (k, merge_log new old) # ds else (k', old) # setDoc_merge k new ds)"

text \<open>\<^verbatim>\<open>const cigCount = Number(data?.cigarettes_smoked ?? 0)\<close>, and the object
  \<^verbatim>\<open>normalized\<close> built from it by \<^verbatim>\<open>upsertDailyLog\<close>.\<close>

definition cigCount :: "log_doc option \<Rightarrow> int" where
  "cigCount data = (case Option.bind data cigarettes_smoked of None \<Rightarrow> 0 | Some n \<Rightarrow> n)"

definition normalized :: "nat \<Rightarrow> string \<Rightarrow> log_doc option \<Rightarrow> log_doc" where
  "normalized now d data =
     (let c = cigCount data
      in \<lparr>date = Some d,
          cigarettes_smoked = Some c,
          smoke_free =
            Some (case Option.bind data smoke_free of
                    Some sf \<Rightarrow> sf \<and> c = 0
                  | None \<Rightarrow> c = 0),
          cravings_count = Option.bind data cravings_count,
          mood_rating = Option.bind data mood_rating,
          stress_level = Option.bind data stress_level,
          log_notes = Option.bind data log_notes,
          log_createdAt =
            Some (case Option.bind data log_createdAt of Some c \<Rightarrow> c | None \<Rightarrow> now),
          log_updatedAt = Some now\<rparr>)"

text \<open>\<^verbatim>\<open>upsertDailyLog(uid, date, data)\<close>; \<open>fault\<close> is the rejection of \<^verbatim>\<open>setDoc\<close>, if any,
  and \<open>now\<close> the server's clock.\<close>

definition upsertDailyLog :: "err option \<Rightarrow> nat \<Rightarrow> string \<Rightarrow> string \<Rightarrow> log_doc option \<Rightarrow> logs_store \<Rightarrow> (err + bool) \<times> logs_store" where
  "upsertDailyLog fault now uid d data st =
     (case fault of
        Some x \<Rightarrow> (Inl x, st)
      | None \<Rightarrow> (Inr True, st(uid := setDoc_merge d (normalized now d data) (st uid))))"

definition getDailyLog :: "string \<Rightarrow> string \<Rightarrow> logs_store \<Rightarrow> log_doc option" where
  "getDailyLog uid d st = map_of (st uid) d"

subsection \<open>Calendar dates and the JavaScript Date object\<close>

definition is_digit :: "char \<Rightarrow> bool" where
  "is_digit c = (CHR ''0'' \<le> c \<and> c \<le> CHR ''9'')"

definition digit_val :: "char \<Rightarrow> int" where
  "digit_val c = of_char c - 48"

definition digits_val :: "string \<Rightarrow> int" where
  "digits_val cs = foldl (\<lambda>n c. 10 * n + digit_val c) 0 cs"

text \<open>
  The date forms of the ECMAScript date-time string format, which \<^verbatim>\<open>iso + "T00:00:00"\<close>
  must start with to be in the format: \<^verbatim>\<open>YYYY\<close>, \<^verbatim>\<open>YYYY-MM\<close> or \<^verbatim>\<open>YYYY-MM-DD\<close>, the year
  also in the expanded form of a sign and six digits (but not \<^verbatim>\<open>-000000\<close>). A missing
  month or day is 1. The month is 01 to 12 and the day 01 to 31; a day past the end of
  the month is accepted and carried into the next month, as V8 does. What an engine
  makes of any other string is its own fallback; here it is an invalid Date.
\<close>

definition parse_year :: "string \<Rightarrow> (int \<times> string) option" where
  "parse_year s =
     (if s \<noteq> [] \<and> (hd s = CHR ''+'' \<or> hd s = CHR ''-'')
      then (if 7 \<le> length s \<and> list_all is_digit (take 6 (tl s))
                \<and> \<not> (hd s = CHR ''-'' \<and> digits_val (take 6 (tl s)) = 0)
            then Some ((if hd s = CHR ''-'' then - 1 else 1) * digits_val (take 6 (tl s)), drop 7 s)
            else None)
      else (if 4 \<le> length s \<and> list_all is_digit (take 4 s)
            then Some (digits_val (take 4 s), drop 4 s)
            else None))"

definition parse_iso :: "string \<Rightarrow> (int \<times> int \<times> int) option" where
  "parse_iso s =
     (case parse_year s of
        None \<Rightarrow> None
      | Some (y, r) \<Rightarrow>
          if r = [] then Some (y, 1, 1)
          else if length r = 3 \<and> r ! 0 = CHR ''-'' \<and> list_all is_digit (drop 1 r)
          then (let m = digits_val (drop 1 r)
                in if 1 \<le> m \<and> m \<le> 12 then Some (y, m, 1) else None)
          else if length r = 6 \<and> r ! 0 = CHR ''-'' \<and> list_all is_digit (take 2 (drop 1 r))
                  \<and> r ! 3 = CHR ''-'' \<and> list_all is_digit (drop 4 r)
          then (let m = digits_val (take 2 (drop 1 r)); d = digits_val (drop 4 r)
                in if 1 \<le> m \<and> m \<le> 12 \<and> 1 \<le> d \<and> d \<le> 31 then Some (y, m, d) else None)
          else None)"

text \<open>Day number of a civil date, counted from 1970-01-01 (ECMAScript \<^verbatim>\<open>MakeDay\<close>), and back.\<close>

definition days_from_civil :: "int \<Rightarrow> int \<Rightarrow> int \<Rightarrow> int" where
  "days_from_civil y m d =
     (let y' = (if m \<le> 2 then y - 1 else y);
          era = y' div 400;
          yoe = y' - era * 400;
          mp = (m + 9) mod 12;
          doy = (153 * mp + 2) div 5 + d - 1;
          doe = yoe * 365 + yoe div 4 - yoe div 100 + doy
      in era * 146097 + doe - 719468)"

definition civil_from_days :: "int \<Rightarrow> int \<times> int \<times> int" where
  "civil_from_days z =
     (let z' = z + 719468;
          era = z' div 146097;
          doe = z' - era * 146097;
          yoe = (doe - doe div 1460 + doe div 36524 - doe div 146096) div 365;
          doy = doe - (365 * yoe + yoe div 4 - yoe div 100);
          mp = (5 * doy + 2) div 153;
          d = doy - (153 * mp + 2) div 5 + 1;
          m = (if mp < 10 then mp + 3 else mp - 9);
          y = yoe + era * 400
      in (if m \<le> 2 then y + 1 else y, m, d))"

fun pad_num :: "nat \<Rightarrow> nat \<Rightarrow> string" where
  "pad_num 0 n = []"
| "pad_num (Suc w) n = pad_num w (n div 10) @ [''0123456789'' ! (n mod 10)]"

definition msPerDay :: int where
  "msPerDay = 1000 * 60 * 60 * 24"

text \<open>
  A Date object is its time value: milliseconds since the epoch in UTC, or \<open>None\<close> for an
  invalid Date (\<^verbatim>\<open>NaN\<close>). \<^verbatim>\<open>TimeClip\<close> makes a time value beyond 100,000,000 days
  invalid.
\<close>

definition TimeClip :: "int \<Rightarrow> int option" where
  "TimeClip t = (if \<bar>t\<bar> \<le> 8640000000000000 then Some t else None)"

text \<open>
  The time zone of the runtime, as the host gives it: the minutes local time is ahead of
  UTC at a UTC time value (ECMAScript \<^verbatim>\<open>LocalTime\<close>), and the offset the host uses
  to read a local time value back to UTC (ECMAScript \<^verbatim>\<open>UTC\<close>: at a repeated local time
  the earlier offset, at a skipped one the offset before the change).
\<close>

record timezone =
  offset_at :: "int \<Rightarrow> int"
  offset_of_local :: "int \<Rightarrow> int"

definition LocalTime :: "timezone \<Rightarrow> int \<Rightarrow> int" where
  "LocalTime z t = t + offset_at z t * 60000"

definition UTC :: "timezone \<Rightarrow> int \<Rightarrow> int" where
  "UTC z lt = lt - offset_of_local z lt * 60000"

text \<open>A zone with one offset all year.\<close>

definition fixed_zone :: "int \<Rightarrow> timezone" where
  "fixed_zone k = \<lparr>offset_at = (\<lambda>t. k), offset_of_local = (\<lambda>t. k)\<rparr>"

text \<open>
  \<^verbatim>\<open>new Date(iso + "T00:00:00")\<close>: a date-time string without an offset is local time,
  so the time value is local midnight of that day.
\<close>

definition new_Date_local :: "timezone \<Rightarrow> string \<Rightarrow> int option" where
  "new_Date_local z isoDate =
     (case parse_iso isoDate of
        None \<Rightarrow> None
      | Some (y, m, d) \<Rightarrow> TimeClip (UTC z (days_from_civil y m d * msPerDay)))"

text \<open>\<^verbatim>\<open>d.setDate(d.getDate() + 1)\<close>: the same local time of day on the next local day.\<close>

definition setDate_next :: "timezone \<Rightarrow> int option \<Rightarrow> int option" where
  "setDate_next z t =
     (case t of
        None \<Rightarrow> None
      | Some v \<Rightarrow>
          (let lt = LocalTime z v;
               (y, m, d) = civil_from_days (lt div msPerDay)
           in TimeClip (UTC z (days_from_civil y m (d + 1) * msPerDay + lt mod msPerDay))))"

text \<open>
  \<^verbatim>\<open>d.toISOString().slice(0, 10)\<close>: the first ten characters of the UTC date and time;
  \<^verbatim>\<open>toISOString\<close> throws a RangeError on an invalid Date. Years outside 0..9999 are
  printed with a sign and six digits.
\<close>

definition toISOString_slice10 :: "int option \<Rightarrow> err + string" where
  "toISOString_slice10 t =
     (case t of
        None \<Rightarrow> Inl (Err [] ''Invalid time value'')
      | Some v \<Rightarrow>
          (let (y, m, d) = civil_from_days (v div msPerDay);
               ys = (if 0 \<le> y \<and> y \<le> 9999 then pad_num 4 (nat y)
                     else (if y < 0 then ''-'' else ''+'') @ pad_num 6 (nat \<bar>y\<bar>))
           in Inr (take 10 (ys @ ''-'' @ pad_num 2 (nat m) @ ''-'' @ pad_num 2 (nat d)))))"

definition nextDay :: "timezone \<Rightarrow> string \<Rightarrow> err + string" where
  "nextDay z isoDate = toISOString_slice10 (setDate_next z (new_Date_local z isoDate))"

subsection \<open>computeStreakFromQuit\<close>

record streak_result =
  current_streak_days :: "int option"
  streak_start_date :: "string option"
  last_slip_date :: "string option"

text \<open>\<^verbatim>\<open>where("date", ">=", quitIso), where("date", "<=", todayIso)\<close>: strings compare
  lexicographically.\<close>

definition in_range :: "string \<Rightarrow> string \<Rightarrow> log_doc \<Rightarrow> bool" where
  "in_range quitIso todayIso d =
     (case date d of None \<Rightarrow> False | Some x \<Rightarrow> quitIso \<le> x \<and> x \<le> todayIso)"

definition is_slip_flag :: "log_doc \<Rightarrow> bool" where
  "is_slip_flag d = (smoke_free d = Some False)"

definition is_slip_cigs :: "log_doc \<Rightarrow> bool" where
  "is_slip_cigs d = (case cigarettes_smoked d of None \<Rightarrow> False | Some n \<Rightarrow> n > 0)"

text \<open>A query \<^verbatim>\<open>where(...), where("date", ...), orderBy("date", "desc"), limit(1)\<close>,
  read as the dates of the documents it returns.\<close>

definition query_last :: "(log_doc \<Rightarrow> bool) \<Rightarrow> string \<Rightarrow> string \<Rightarrow> log_doc list \<Rightarrow> string list" where
  "query_last P quitIso todayIso docs =
     take 1 (rev (sort (map (\<lambda>d. the (date d)) (filter (\<lambda>d. P d \<and> in_range quitIso todayIso d) docs))))"

text \<open>The whole-day difference \<^verbatim>\<open>Math.max(0, Math.floor((dToday - dStart) / msPerDay))\<close>;
  \<open>None\<close> is \<^verbatim>\<open>NaN\<close>.\<close>

definition diffDays :: "int option \<Rightarrow> int option \<Rightarrow> int option" where
  "diffDays dStart dToday =
     (case (dStart, dToday) of
        (Some a, Some b) \<Rightarrow> Some (max 0 ((b - a) div msPerDay))
      | _ \<Rightarrow> None)"

definition computeStreakFromQuit :: "timezone \<Rightarrow> err option \<Rightarrow> log_doc list \<Rightarrow> string option \<Rightarrow> string \<Rightarrow> err + streak_result" where
  "computeStreakFromQuit z fault docs quitIso todayIso =
     (if \<not> truthy quitIso
      then Inr \<lparr>current_streak_days = Some 0, streak_start_date = None, last_slip_date = None\<rparr>
      else
        (case fault of
           Some x \<Rightarrow> Inl x
         | None \<Rightarrow>
             (let q = the quitIso;
                  candidates = rev (sort (query_last is_slip_flag q todayIso docs
                                          @ query_last is_slip_cigs q todayIso docs));
                  lastSlipIso = (case candidates of [] \<Rightarrow> None | c # cs \<Rightarrow> Some c);
                  start = (if \<not> truthy lastSlipIso then Inr q else nextDay z (the lastSlipIso))
              in case start of
                   Inl x \<Rightarrow> Inl x
                 | Inr startIso \<Rightarrow>
                     Inr \<lparr>current_streak_days =
                            diffDays (new_Date_local z startIso) (new_Date_local z todayIso),
                          streak_start_date = Some startIso,
                          last_slip_date = lastSlipIso\<rparr>)))"

text \<open>
  The specification's set of slip dates: the dates in \<open>[quitIso, todayIso]\<close> of the entries
  with \<^verbatim>\<open>smoke_free == false\<close> or \<^verbatim>\<open>cigarettes_smoked > 0\<close>.
\<close>

definition slip_dates :: "string \<Rightarrow> string \<Rightarrow> log_doc list \<Rightarrow> string set" where
  "slip_dates q t docs =
     {x. \<exists>d \<in> set docs. date d = Some x \<and> q \<le> x \<and> x \<le> t \<and> (is_slip_flag d \<or> is_slip_cigs d)}"

section \<open>The evaluator (evaluateAndUnlockBadges)\<close>

text \<open>The values the condition closures read, computed once before the table is built.\<close>

record snapshot =
  hasCreatedAt :: bool
  streakDays :: int
  logsCount :: nat
  aiCount :: int
  hypCount :: int
  savings :: jsnum
  pointsRank :: "nat option"
  streakRank :: "nat option"
  savedRank :: "nat option"
  completedChallenges :: nat
  healthRank :: int

definition HEALTH_STAGE_RANK :: "(string \<times> int) list" where
  "HEALTH_STAGE_RANK = [(''wk2_to_wk12'', 4), (''mo1'', 5), (''mo6'', 7)]"

text \<open>\<^verbatim>\<open>HEALTH_STAGE_RANK[healthStageId] ?? -1\<close>\<close>

definition health_rank_of :: "string \<Rightarrow> int" where
  "health_rank_of stage = (case map_of HEALTH_STAGE_RANK stage of Some r \<Rightarrow> r | None \<Rightarrow> - 1)"

text \<open>The array \<^verbatim>\<open>conditions\<close>, in the order of the source.\<close>

definition conditions :: "(string \<times> (snapshot \<Rightarrow> bool)) list" where
  "conditions =
    [(''welcome'', \<lambda>m. hasCreatedAt m),
     (''streak1'', \<lambda>m. streakDays m \<ge> 1),
     (''streak2'', \<lambda>m. streakDays m \<ge> 2),
     (''streak3'', \<lambda>m. streakDays m \<ge> 3),
     (''streak5'', \<lambda>m. streakDays m \<ge> 5),
     (''streak10'', \<lambda>m. streakDays m \<ge> 10),
     (''streak20'', \<lambda>m. streakDays m \<ge> 20),
     (''streak30'', \<lambda>m. streakDays m \<ge> 30),
     (''streak50'', \<lambda>m. streakDays m \<ge> 50),
     (''streak75'', \<lambda>m. streakDays m \<ge> 75),
     (''streak100'', \<lambda>m. streakDays m \<ge> 100),
     (''streak200'', \<lambda>m. streakDays m \<ge> 200),
     (''streak365'', \<lambda>m. streakDays m \<ge> 365),
     (''streak500'', \<lambda>m. streakDays m \<ge> 500),
     (''streak600'', \<lambda>m. streakDays m \<ge> 600),
     (''streak700'', \<lambda>m. streakDays m \<ge> 700),
     (''streak800'', \<lambda>m. streakDays m \<ge> 800),
     (''streak900'', \<lambda>m. streakDays m \<ge> 900),
     (''streak1000'', \<lambda>m. streakDays m \<ge> 1000),
     (''log'', \<lambda>m. logsCount m \<ge> 10),
     (''log2'', \<lambda>m. logsCount m \<ge> 30),
     (''log3'', \<lambda>m. logsCount m \<ge> 100),
     (''ai1'', \<lambda>m. aiCount m \<ge> 10),
     (''ai2'', \<lambda>m. aiCount m \<ge> 30),
     (''ai3'', \<lambda>m. aiCount m \<ge> 100),
     (''hypnosis1'', \<lambda>m. hypCount m \<ge> 2),
     (''hypnosis2'', \<lambda>m. hypCount m \<ge> 6),
     (''hypnosis3'', \<lambda>m. hypCount m \<ge> 10),
     (''saving'', \<lambda>m. num_ge (savings m) 100),
     (''saving2'', \<lambda>m. num_ge (savings m) 500),
     (''saving3'', \<lambda>m. num_ge (savings m) 1000),
     (''leader_points_1'', \<lambda>m. pointsRank m = Some 1),
     (''leader_points_2'', \<lambda>m. pointsRank m = Some 2),
     (''leader_points_3'', \<lambda>m. pointsRank m = Some 3),
     (''leader_streak_1'', \<lambda>m. streakRank m = Some 1),
     (''leader_streak_2'', \<lambda>m. streakRank m = Some 2),
     (''leader_streak_3'', \<lambda>m. streakRank m = Some 3),
     (''leader_saved_1'', \<lambda>m. savedRank m = Some 1),
     (''leader_saved_2'', \<lambda>m. savedRank m = Some 2),
     (''leader_saved_3'', \<lambda>m. savedRank m = Some 3),
     (''challenge30'', \<lambda>m. completedChallenges m \<ge> 30),
     (''challenge60'', \<lambda>m. completedChallenges m \<ge> 60),
     (''challenge90'', \<lambda>m. completedChallenges m \<ge> 90),
     (''health'', \<lambda>m. healthRank m \<ge> health_rank_of ''wk2_to_wk12''),
     (''health2'', \<lambda>m. healthRank m \<ge> health_rank_of ''mo1''),
     (''health3'', \<lambda>m. healthRank m \<ge> health_rank_of ''mo6'')]"

text \<open>
  What one evaluation pass meets outside the code: the signed-in user, the outcome of each
  read (the data, or the error the read is rejected with), the clock and time zone of the
  runtime, and for each badge id the outcome of \<^verbatim>\<open>isUnlocked\<close> and of \<^verbatim>\<open>unlock\<close>.
\<close>

record eval_env =
  currentUser :: "string option"
  userDoc :: "err + profile option"
  todayIso :: string
  tz :: timezone
  logDocs :: "log_doc list"
  streak_fault :: "err option"
  count_fault :: "err option"
  challenges :: "err + nat"
  leaderboard :: "lb_row list"
  leaderboard_fault :: "string \<Rightarrow> err option"
  isUnlocked_fault :: "string \<Rightarrow> err option"
  unlock_env_of :: "string \<Rightarrow> unlock_env"

text \<open>\<^verbatim>\<open>countDailyLogs(uid)\<close>: the size of the collection.\<close>

definition countDailyLogs :: "err option \<Rightarrow> log_doc list \<Rightarrow> err + nat" where
  "countDailyLogs fault docs = (case fault of Some x \<Rightarrow> Inl x | None \<Rightarrow> Inr (length docs))"

text \<open>
  How the reads before the loop can end without a snapshot: the explicit
  \<^verbatim>\<open>return []\<close> in the catch of the challenges query, or an error thrown to the outer catch.
\<close>

datatype abort = ReturnEmpty | Throw err

definition bind_read :: "abort + 'a \<Rightarrow> ('a \<Rightarrow> abort + 'b) \<Rightarrow> abort + 'b" where
  "bind_read r f = (case r of Inl a \<Rightarrow> Inl a | Inr v \<Rightarrow> f v)"

definition await :: "err + 'a \<Rightarrow> abort + 'a" where
  "await r = (case r of Inl x \<Rightarrow> Inl (Throw x) | Inr v \<Rightarrow> Inr v)"

text \<open>\<^verbatim>\<open>(profile?.quit_date || "").slice(0, 10) || null\<close>\<close>

definition quitIso_of :: "profile option \<Rightarrow> string option" where
  "quitIso_of p =
     (case Option.bind p quit_date of
        None \<Rightarrow> None
      | Some q \<Rightarrow> if take 10 q = [] then None else Some (take 10 q))"

text \<open>The inner \<^verbatim>\<open>try/catch\<close> around the query for completed challenges.\<close>

definition completed_challenges :: "err + nat \<Rightarrow> abort + nat" where
  "completed_challenges r =
     (case r of
        Inl x \<Rightarrow> if code x = ''permission-denied'' then Inl ReturnEmpty else Inr 0
      | Inr n \<Rightarrow> Inr n)"

text \<open>The body of the outer \<^verbatim>\<open>try\<close> up to the condition table.\<close>

definition read_metrics :: "eval_env \<Rightarrow> string \<Rightarrow> abort + snapshot" where
  "read_metrics env uid =
     bind_read (await (userDoc env)) (\<lambda>p.
     bind_read (await (computeStreakFromQuit (tz env) (streak_fault env) (logDocs env)
                         (quitIso_of p) (todayIso env))) (\<lambda>st.
     bind_read (await (countDailyLogs (count_fault env) (logDocs env))) (\<lambda>n.
     bind_read (completed_challenges (challenges env)) (\<lambda>c.
     bind_read (await (getLeaderboardRankTop3 (leaderboard_fault env ''points'') (leaderboard env) ''points'' uid)) (\<lambda>pr.
     bind_read (await (getLeaderboardRankTop3 (leaderboard_fault env ''streak'') (leaderboard env) ''streak'' uid)) (\<lambda>sr.
     bind_read (await (getLeaderboardRankTop3 (leaderboard_fault env ''saved'') (leaderboard env) ''saved'' uid)) (\<lambda>vr.
       (let days = number_or (current_streak_days st) 0
        in Inr \<lparr>hasCreatedAt = (Option.bind p createdAt \<noteq> None),
                streakDays = days,
                logsCount = n,
                aiCount = number_or (Option.bind p ai_messages_count) 0,
                hypCount = number_or (Option.bind p audio_sessions_count) 0,
                savings = computeSavingsEuros p days,
                pointsRank = pr,
                streakRank = sr,
                savedRank = vr,
                completedChallenges = c,
                healthRank =
                  health_rank_of (case Option.bind p health_stage_id of None \<Rightarrow> [] | Some h \<Rightarrow> h)\<rparr>))))))))"

text \<open>
  The \<^verbatim>\<open>for\<close> loop over the table, with the per-condition \<^verbatim>\<open>try/catch\<close>:
  a permission error returns the list collected so far; any other error is logged and
  the loop goes on.
\<close>

fun eval_loop :: "eval_env \<Rightarrow> string \<Rightarrow> snapshot \<Rightarrow> (string \<times> (snapshot \<Rightarrow> bool)) list \<Rightarrow> string list \<Rightarrow> state \<Rightarrow> string list \<times> state" where
  "eval_loop env uid m [] newlyUnlocked s = (newlyUnlocked, s)"
| "eval_loop env uid m ((badgeId, check) # rest) newlyUnlocked s =
     (case isUnlocked (isUnlocked_fault env badgeId) uid badgeId s of
        Inl x \<Rightarrow>
          if is_permission_error x then (newlyUnlocked, s)
          else eval_loop env uid m rest newlyUnlocked s
      | Inr unlocked \<Rightarrow>
          if \<not> unlocked \<and> check m
          then (case unlock (unlock_env_of env badgeId) (Some uid) (Some badgeId) s of
                  (Inl x, s') \<Rightarrow>
                    if is_permission_error x then (newlyUnlocked, s')
                    else eval_loop env uid m rest newlyUnlocked s'
                | (Inr r, s') \<Rightarrow> eval_loop env uid m rest (newlyUnlocked @ [badgeId]) s')
          else eval_loop env uid m rest newlyUnlocked s)"

text \<open>\<^verbatim>\<open>getAuth().currentUser?.uid || null\<close>\<close>

definition curUid :: "eval_env \<Rightarrow> string option" where
  "curUid env = (if truthy (currentUser env) then currentUser env else None)"

definition evaluateAndUnlockBadges :: "eval_env \<Rightarrow> string option \<Rightarrow> state \<Rightarrow> string list \<times> state" where
  "evaluateAndUnlockBadges env uid s =
     (if \<not> truthy uid \<or> uid \<noteq> curUid env then ([], s)
      else
        (case read_metrics env (the uid) of
           Inl ReturnEmpty \<Rightarrow> ([], s)
         | Inl (Throw x) \<Rightarrow> if is_permission_error x then ([], s) else ([], s)
         | Inr m \<Rightarrow> eval_loop env (the uid) m conditions [] s))"

text \<open>The value a condition of the table has on a snapshot; an id that is not in the table
  has no condition.\<close>

definition condition_holds :: "snapshot \<Rightarrow> string \<Rightarrow> bool" where
  "condition_holds m badgeId = (case map_of conditions badgeId of Some check \<Rightarrow> check m | None \<Rightarrow> False)"

text \<open>The ids of the streak conditions and their thresholds, in the order of the table.\<close>

definition streak_thresholds :: "int list" where
  "streak_thresholds = [1, 2, 3, 5, 10, 20, 30, 50, 75, 100, 200, 365, 500, 600, 700, 800, 900, 1000]"

definition streak_ids :: "string list" where
  "streak_ids =
    [''streak1'', ''streak2'', ''streak3'', ''streak5'', ''streak10'', ''streak20'', ''streak30'', ''streak50'', ''streak75'', ''streak100'', ''streak200'', ''streak365'', ''streak500'', ''streak600'', ''streak700'', ''streak800'', ''streak900'', ''streak1000'']"

section \<open>Concrete inputs for the examples\<close>

definition state0 :: state where
  "state0 = \<lparr>badges = Map.empty, inFlightUnlocks = {}, trace = []\<rparr>"

definition state1 :: state where
  "state1 = \<lparr>badges = [(''u1'', ''streak1'') \<mapsto> \<lparr>unlockedAt = Some 7, seen = False, seenAt = None\<rparr>],
             inFlightUnlocks = {}, trace = []\<rparr>"

definition quiet_env :: unlock_env where
  "quiet_env = \<lparr>serverTimestamp = 9, tx_fault = None, server_fault = None, local_fault = None\<rparr>"

definition failing_notifications_env :: unlock_env where
  "failing_notifications_env =
     \<lparr>serverTimestamp = 9, tx_fault = None,
      server_fault = Some (Err [] ''No ID token''),
      local_fault = Some (Err [] ''No authenticated user'')\<rparr>"

definition profile0 :: profile where
  "profile0 =
     \<lparr>createdAt = Some 1, quit_date = Some ''2024-01-01'',
      cigarettes_per_day_before = Some (Fin 20), cost_per_pack = Some (Fin 5),
      cigarettes_per_pack = Some (Fin 20),
      ai_messages_count = None, audio_sessions_count = None, health_stage_id = None\<rparr>"

definition env0 :: eval_env where
  "env0 =
     \<lparr>currentUser = Some ''u1'', userDoc = Inr (Some profile0), todayIso = ''2024-01-10'', tz = fixed_zone 0,
      logDocs = [], streak_fault = None, count_fault = None, challenges = Inr 0,
      leaderboard = [], leaderboard_fault = (\<lambda>f. None), isUnlocked_fault = (\<lambda>b. None),
      unlock_env_of = (\<lambda>b. quiet_env)\<rparr>"

definition snapshot0 :: snapshot where
  "snapshot0 =
     \<lparr>hasCreatedAt = True, streakDays = 9, logsCount = 0, aiCount = 0, hypCount = 0, savings = Fin 45,
      pointsRank = None, streakRank = None, savedRank = None, completedChallenges = 0,
      healthRank = - 1\<rparr>"

definition lb :: "string \<Rightarrow> int \<Rightarrow> lb_row" where
  "lb i p = \<lparr>doc_id = i, row_uid = None, points = Some p, streak = None, saved = None\<rparr>"

definition leaderboard0 :: "lb_row list" where
  "leaderboard0 = [lb ''a'' 10, lb ''b'' 50, lb ''c'' 30, lb ''d'' 40]"


text \<open>One cigarette a day from packs of six at 5 a pack; three a day at 3 a pack with no
  pack size stored; a negative consumption; an infinite consumption (a double field of
  the store can hold \<^verbatim>\<open>Infinity\<close>).\<close>

definition profile_sixth :: profile where
  "profile_sixth = profile0\<lparr>cigarettes_per_day_before := Some (Fin 1), cost_per_pack := Some (Fin 5),
                             cigarettes_per_pack := Some (Fin 6)\<rparr>"

definition profile_no_pack :: profile where
  "profile_no_pack = profile0\<lparr>cigarettes_per_day_before := Some (Fin 3), cost_per_pack := Some (Fin 3),
                               cigarettes_per_pack := None\<rparr>"

definition profile_negative :: profile where
  "profile_negative = profile0\<lparr>cigarettes_per_day_before := Some (Fin (- 5))\<rparr>"

definition profile_infinite :: profile where
  "profile_infinite = profile0\<lparr>cigarettes_per_day_before := Some PInf\<rparr>"

text \<open>Finite fields whose product overflows: \<open>2 ^ 600\<close> is about \<open>4 * 10 ^ 180\<close>.\<close>

definition profile_huge :: profile where
  "profile_huge = profile0\<lparr>cigarettes_per_day_before := Some (Fin (of_int (2 ^ 600))),
                            cost_per_pack := Some (Fin (of_int (2 ^ 600)))\<rparr>"

definition log_false_zero :: log_doc where
  "log_false_zero =
     \<lparr>date = None, cigarettes_smoked = Some 0, smoke_free = Some False, cravings_count = Some 1,
      mood_rating = Some 3, stress_level = Some 3, log_notes = None,
      log_createdAt = None, log_updatedAt = None\<rparr>"

definition log_flag_true_smoked :: log_doc where
  "log_flag_true_smoked = log_false_zero\<lparr>cigarettes_smoked := Some 2, smoke_free := Some True\<rparr>"

definition no_logs :: logs_store where
  "no_logs = (\<lambda>uid. [])"

definition slip_jan5 :: log_doc where
  "slip_jan5 =
     \<lparr>date = Some ''2024-01-05'', cigarettes_smoked = Some 2, smoke_free = Some False,
      cravings_count = None, mood_rating = None, stress_level = None, log_notes = None,
      log_createdAt = None, log_updatedAt = None\<rparr>"

definition permission_denied :: err where
  "permission_denied = Err ''permission-denied'' ''Missing or insufficient permissions.''"

definition env_signed_out_at_streak1 :: eval_env where
  "env_signed_out_at_streak1 =
     env0\<lparr>isUnlocked_fault := (\<lambda>b. if b = ''streak1'' then Some permission_denied else None)\<rparr>"

definition tx_denied_env :: unlock_env where
  "tx_denied_env = quiet_env\<lparr>tx_fault := Some permission_denied\<rparr>"

definition log_no_flag_zero :: log_doc where
  "log_no_flag_zero = log_false_zero\<lparr>smoke_free := None\<rparr>"

text \<open>
  A zone that changes its offset: America/New_York around the start of daylight-saving
  time on 2024-03-10, when 02:00 local (07:00 UTC) becomes 03:00.
\<close>

definition new_york_spring_2024 :: timezone where
  "new_york_spring_2024 =
     \<lparr>offset_at = (\<lambda>t. if t < 1710054000000 then - 300 else - 240),
      offset_of_local = (\<lambda>lt. if lt < 1710039600000 then - 300 else - 240)\<rparr>"

section \<open>Properties of the unlock transaction\<close>

lemma log_event_simps [simp]:
  "badges (log_event ev s) = badges s"
  "inFlightUnlocks (log_event ev s) = inFlightUnlocks s"
  "trace (log_event ev s) = trace s @ [ev]"
  by (simp_all add: log_event_def)

lemma notify_badges [simp]: "badges (notify e b s) = badges s"
  by (simp add: notify_def Let_def split: option.splits)

lemma notify_inFlight [simp]: "inFlightUnlocks (notify e b s) = inFlightUnlocks s"
  by (simp add: notify_def Let_def split: option.splits)

lemma unlock_tx_inFlight [simp]: "inFlightUnlocks (snd (unlock_tx e u b s)) = inFlightUnlocks s"
  by (simp add: unlock_tx_def Let_def split: option.splits)

lemma unlock_try_inFlight [simp]: "inFlightUnlocks (snd (unlock_try e u b s)) = inFlightUnlocks s"
proof (cases "unlock_tx e u b s")
  case (Pair r s1)
  with unlock_tx_inFlight [of e u b s] have "inFlightUnlocks s1 = inFlightUnlocks s"
    by simp
  with Pair show ?thesis
    by (simp add: unlock_try_def split: sum.splits)
qed

lemma unlock_inFlight: "inFlightUnlocks (snd (unlock e u b s)) = inFlightUnlocks s"
proof (cases "\<not> truthy u \<or> \<not> truthy b \<or> the b \<in> inFlightUnlocks s")
  case True
  then show ?thesis by (auto simp: unlock_def)
next
  case False
  let ?s1 = "s\<lparr>inFlightUnlocks := insert (the b) (inFlightUnlocks s)\<rparr>"
  obtain r s2 where tr: "unlock_try e (the u) (the b) ?s1 = (r, s2)"
    by (cases "unlock_try e (the u) (the b) ?s1")
  with unlock_try_inFlight [of e "the u" "the b" ?s1]
  have "inFlightUnlocks s2 = insert (the b) (inFlightUnlocks s)" by simp
  with False tr show ?thesis by (simp add: unlock_def)
qed

lemma unlock_tx_present:
  "badges s (u, b) = Some d \<Longrightarrow> badges (snd (unlock_tx e u b s)) = badges s"
  by (simp add: unlock_tx_def Let_def split: option.splits)

lemma unlock_try_present:
  "badges s (u, b) = Some d \<Longrightarrow> badges (snd (unlock_try e u b s)) = badges s"
  by (auto simp add: unlock_try_def unlock_tx_def Let_def split: option.splits)

lemma unlock_present:
  assumes "badges s (the u, the b) = Some d"
  shows "badges (snd (unlock e u b s)) = badges s"
proof -
  let ?s1 = "s\<lparr>inFlightUnlocks := insert (the b) (inFlightUnlocks s)\<rparr>"
  obtain r s2 where tr: "unlock_try e (the u) (the b) ?s1 = (r, s2)"
    by (cases "unlock_try e (the u) (the b) ?s1")
  from assms have "badges ?s1 (the u, the b) = Some d" by simp
  from unlock_try_present [OF this, of e] tr have "badges s2 = badges s" by simp
  with tr show ?thesis by (simp add: unlock_def)
qed

lemma unlock_deduped:
  assumes "u \<noteq> []" "b \<noteq> []" "b \<notin> inFlightUnlocks s" "tx_fault e = None"
    and "badges s (u, b) = Some d"
  shows "unlock e (Some u) (Some b) s =
           (Inr (Deduped b), s\<lparr>trace := trace s @ [RunTransaction u b, TxGet u b]\<rparr>)"
  using assms by (simp add: unlock_def unlock_try_def unlock_tx_def Let_def log_event_def)

lemma unlock_created:
  assumes "u \<noteq> []" "b \<noteq> []" "b \<notin> inFlightUnlocks s" "tx_fault e = None"
    and "badges s (u, b) = None"
  shows "unlock e (Some u) (Some b) s =
           (Inr (Unlocked b),
            notify e b (s\<lparr>badges := (badges s)((u, b) \<mapsto> new_badge e),
                         trace := trace s @ [RunTransaction u b, TxGet u b, TxSet u b (new_badge e)]\<rparr>))"
  using assms
  by (simp add: unlock_def unlock_try_def unlock_tx_def Let_def log_event_def new_badge_def notify_def
      split: option.splits)

lemma unlock_faulted:
  assumes "u \<noteq> []" "b \<noteq> []" "b \<notin> inFlightUnlocks s" "tx_fault e = Some x"
  shows "unlock e (Some u) (Some b) s =
           (if code x = ''already-exists'' then Inr (Deduped b) else Inl x,
            s\<lparr>trace := trace s @ [RunTransaction u b]\<rparr>)"
  using assms by (simp add: unlock_def unlock_try_def unlock_tx_def Let_def log_event_def)

lemma unlock_skipped:
  assumes "\<not> truthy u \<or> \<not> truthy b \<or> the b \<in> inFlightUnlocks s"
  shows "snd (unlock e u b s) = s" and "\<exists>w. fst (unlock e u b s) = Inr (Skipped b w)"
  using assms by (auto simp: unlock_def)

lemma unlock_cases:
  obtains
    (skipped) w where "unlock e u b s = (Inr (Skipped b w), s)"
  | (faulted) x u' b' where "u = Some u'" "b = Some b'" "tx_fault e = Some x"
      "unlock e u b s =
         (if code x = ''already-exists'' then Inr (Deduped b') else Inl x,
          s\<lparr>trace := trace s @ [RunTransaction u' b']\<rparr>)"
  | (deduped) d u' b' where "u = Some u'" "b = Some b'" "badges s (u', b') = Some d"
      "unlock e u b s = (Inr (Deduped b'), s\<lparr>trace := trace s @ [RunTransaction u' b', TxGet u' b']\<rparr>)"
  | (created) u' b' where "u = Some u'" "b = Some b'" "badges s (u', b') = None" "tx_fault e = None"
      "unlock e u b s =
         (Inr (Unlocked b'),
          notify e b' (s\<lparr>badges := (badges s)((u', b') \<mapsto> new_badge e),
                        trace := trace s @ [RunTransaction u' b', TxGet u' b', TxSet u' b' (new_badge e)]\<rparr>))"
proof (cases "\<not> truthy u \<or> \<not> truthy b \<or> the b \<in> inFlightUnlocks s")
  case True
  with unlock_skipped [of u b s e] obtain w where "unlock e u b s = (Inr (Skipped b w), s)"
    by (cases "unlock e u b s") auto
  then show ?thesis by (rule skipped)
next
  case False
  then obtain u' b' where ub: "u = Some u'" "b = Some b'" "u' \<noteq> []" "b' \<noteq> []"
    "b' \<notin> inFlightUnlocks s"
    by (cases u; cases b) auto
  show ?thesis
  proof (cases "tx_fault e")
    case (Some x)
    with ub unlock_faulted [of u' b' s e x] show ?thesis by (intro faulted) auto
  next
    case None
    show ?thesis
    proof (cases "badges s (u', b')")
      case (Some d)
      with ub None unlock_deduped [of u' b' s e d] show ?thesis by (intro deduped) auto
    next
      case nb: None
      with ub None unlock_created [of u' b' s e] show ?thesis by (intro created) auto
    qed
  qed
qed

lemma notify_trace:
  "trace (notify e b s) =
     trace s @ NotifyBadgeUnlocked b (meta_title b) #
       (case server_fault e of None \<Rightarrow> []
        | Some x \<Rightarrow> [CreateAndPushNotification ''New badge unlocked!'' (fallback_body b) b])"
  by (simp add: notify_def Let_def split: option.splits)

lemma unlock_step:
  assumes "unlock e (Some u) (Some b) s = (r, s')"
  shows "(badges s' = badges s \<and> r \<noteq> Inr (Unlocked b)
            \<and> filter (is_create u b) (trace s') = filter (is_create u b) (trace s)
            \<and> filter is_notification (trace s') = filter is_notification (trace s))
       \<or> (badges s (u, b) = None \<and> tx_fault e = None \<and> r = Inr (Unlocked b)
            \<and> badges s' = (badges s)((u, b) \<mapsto> new_badge e)
            \<and> filter (is_create u b) (trace s') = filter (is_create u b) (trace s) @ [TxSet u b (new_badge e)]
            \<and> filter is_notification (trace s') =
                  filter is_notification (trace s) @ NotifyBadgeUnlocked b (meta_title b) #
                    (case server_fault e of None \<Rightarrow> []
                     | Some x \<Rightarrow> [CreateAndPushNotification ''New badge unlocked!'' (fallback_body b) b]))"
proof (cases rule: unlock_cases [of e "Some u" "Some b" s])
  case (skipped w)
  with assms show ?thesis by auto
next
  case (faulted x u' b')
  with assms show ?thesis by (auto simp: is_notification_def)
next
  case (deduped d u' b')
  with assms show ?thesis by (auto simp: is_notification_def)
next
  case (created u' b')
  with assms show ?thesis
    by (auto simp: notify_trace is_notification_def split: option.splits)
qed

lemma unlock_calls_present:
  assumes "badges s (u, b) \<noteq> None" "unlock_calls es (Some u) (Some b) s = (rs, s')"
  shows "badges s' = badges s \<and> Inr (Unlocked b) \<notin> set rs
           \<and> filter (is_create u b) (trace s') = filter (is_create u b) (trace s)
           \<and> filter is_notification (trace s') = filter is_notification (trace s)"
  using assms
proof (induction es arbitrary: s rs s')
  case Nil
  then show ?case by simp
next
  case (Cons e es)
  obtain r s1 where first: "unlock e (Some u) (Some b) s = (r, s1)"
    by (cases "unlock e (Some u) (Some b) s")
  obtain rs1 s2 where rest: "unlock_calls es (Some u) (Some b) s1 = (rs1, s2)"
    by (cases "unlock_calls es (Some u) (Some b) s1")
  from Cons.prems(2) first rest have res: "rs = r # rs1" "s' = s2" by simp_all
  from unlock_step [OF first] Cons.prems(1)
  have one: "badges s1 = badges s" "r \<noteq> Inr (Unlocked b)"
    "filter (is_create u b) (trace s1) = filter (is_create u b) (trace s)"
    "filter is_notification (trace s1) = filter is_notification (trace s)"
    by auto
  with Cons.prems(1) have "badges s1 (u, b) \<noteq> None" by simp
  from Cons.IH [OF this rest] one res show ?case by auto
qed

lemma unlock_calls_once:
  assumes "unlock_calls es (Some u) (Some b) s = (rs, s')"
  shows "length (filter (\<lambda>r. r = Inr (Unlocked b)) rs) \<le> 1
           \<and> length (filter (is_create u b) (trace s')) \<le> Suc (length (filter (is_create u b) (trace s)))
           \<and> length (filter is_server_notify (filter is_notification (trace s')))
                 \<le> Suc (length (filter is_server_notify (filter is_notification (trace s))))
           \<and> length (filter is_local_notify (filter is_notification (trace s')))
                 \<le> Suc (length (filter is_local_notify (filter is_notification (trace s))))"
  using assms
proof (induction es arbitrary: s rs s')
  case Nil
  then show ?case by simp
next
  case (Cons e es)
  obtain r s1 where first: "unlock e (Some u) (Some b) s = (r, s1)"
    by (cases "unlock e (Some u) (Some b) s")
  obtain rs1 s2 where rest: "unlock_calls es (Some u) (Some b) s1 = (rs1, s2)"
    by (cases "unlock_calls es (Some u) (Some b) s1")
  from Cons.prems first rest have res: "rs = r # rs1" "s' = s2" by simp_all
  from unlock_step [OF first] show ?case
  proof
    assume same: "badges s1 = badges s \<and> r \<noteq> Inr (Unlocked b)
            \<and> filter (is_create u b) (trace s1) = filter (is_create u b) (trace s)
            \<and> filter is_notification (trace s1) = filter is_notification (trace s)"
    with Cons.IH [OF rest] res show ?case by auto
  next
    assume new: "badges s (u, b) = None \<and> tx_fault e = None \<and> r = Inr (Unlocked b)
            \<and> badges s1 = (badges s)((u, b) \<mapsto> new_badge e)
            \<and> filter (is_create u b) (trace s1) = filter (is_create u b) (trace s) @ [TxSet u b (new_badge e)]
            \<and> filter is_notification (trace s1) =
                  filter is_notification (trace s) @ NotifyBadgeUnlocked b (meta_title b) #
                    (case server_fault e of None \<Rightarrow> []
                     | Some x \<Rightarrow> [CreateAndPushNotification ''New badge unlocked!'' (fallback_body b) b])"
    then have "badges s1 (u, b) \<noteq> None" by simp
    from unlock_calls_present [OF this rest]
    have "Inr (Unlocked b) \<notin> set rs1"
      "filter (is_create u b) (trace s2) = filter (is_create u b) (trace s1)"
      "filter is_notification (trace s2) = filter is_notification (trace s1)" by auto
    moreover from \<open>Inr (Unlocked b) \<notin> set rs1\<close> have "filter (\<lambda>r. r = Inr (Unlocked b)) rs1 = []"
      by (auto simp: filter_empty_conv)
    ultimately show ?case using new res by (auto split: option.splits)
  qed
qed



lemma filter_server_of_notification:
  "filter is_server_notify (filter is_notification xs) = filter is_server_notify xs"
  by (induction xs) (auto simp: is_notification_def)

lemma filter_local_of_notification:
  "filter is_local_notify (filter is_notification xs) = filter is_local_notify xs"
  by (induction xs) (auto simp: is_notification_def)


lemma unlock_error_is_tx_error:
  assumes "fst (unlock e uid badgeId s) = Inl x"
  shows "tx_fault e = Some x \<and> code x \<noteq> ''already-exists''"
proof (cases rule: unlock_cases [of e uid badgeId s])
  case (skipped w)
  with assms show ?thesis by simp
next
  case (faulted y u' b')
  with assms show ?thesis by (auto split: if_splits)
next
  case (deduped d u' b')
  with assms show ?thesis by simp
next
  case (created u' b')
  with assms show ?thesis by simp
qed


section \<open>Invariants of the evaluator's loop\<close>

lemma unlock_keeps_records:
  assumes "badges s k = Some d"
  shows "badges (snd (unlock e uid badgeId s)) k = Some d"
proof (cases rule: unlock_cases [of e uid badgeId s])
  case (skipped w)
  with assms show ?thesis by simp
next
  case (faulted x u' b')
  with assms show ?thesis by simp
next
  case (deduped d' u' b')
  with assms show ?thesis by simp
next
  case (created u' b')
  with assms have "k \<noteq> (u', b')" by auto
  with created assms show ?thesis by simp
qed

lemma eval_loop_extends:
  "\<exists>ids. fst (eval_loop env u m cs acc s) = acc @ ids"
proof (induction cs arbitrary: acc s)
  case Nil
  then show ?case by simp
next
  case (Cons c cs)
  obtain i chk where c: "c = (i, chk)" by (cases c)
  obtain r s' where un: "unlock (unlock_env_of env i) (Some u) (Some i) s = (r, s')"
    by (cases "unlock (unlock_env_of env i) (Some u) (Some i) s")
  from Cons.IH [of acc s] Cons.IH [of acc s'] Cons.IH [of "acc @ [i]" s']
  show ?case unfolding c
    by (auto simp: un isUnlocked_def split: option.splits sum.splits)
qed

lemma eval_loop_keeps_records:
  "badges s k = Some d \<Longrightarrow> badges (snd (eval_loop env u m cs acc s)) k = Some d"
proof (induction cs arbitrary: acc s)
  case Nil
  then show ?case by simp
next
  case (Cons c cs)
  obtain i chk where c: "c = (i, chk)" by (cases c)
  obtain r s' where un: "unlock (unlock_env_of env i) (Some u) (Some i) s = (r, s')"
    by (cases "unlock (unlock_env_of env i) (Some u) (Some i) s")
  from unlock_keeps_records [OF Cons.prems, of "unlock_env_of env i" "Some u" "Some i"] un
  have s': "badges s' k = Some d" by simp
  from Cons.IH [OF Cons.prems, of acc] Cons.IH [OF s', of acc] Cons.IH [OF s', of "acc @ [i]"] Cons.prems s'
  show ?case unfolding c
    by (auto simp: un isUnlocked_def split: option.splits sum.splits)
qed


section \<open>The claims about unlock\<close>

text \<open>
  Claim C10. If either \<^verbatim>\<open>uid\<close> or \<^verbatim>\<open>badgeId\<close> is missing (falsy: absent or the empty
  string), \<^verbatim>\<open>unlock\<close> returns \<^verbatim>\<open>{id, skipped: "missing"}\<close> at once. The state it
  returns is the state it was given: the badge documents and the in-flight set are the
  same, and no call was added to the trace, so the store was neither read nor written
  and no notification path was invoked.
\<close>

theorem unlock_missing_id:
  "\<not> truthy uid \<or> \<not> truthy badgeId \<Longrightarrow>
     unlock e uid badgeId s = (Inr (Skipped badgeId ''missing''), s)"
  by (auto simp: unlock_def)

theorem unlock_missing_id_witness:
  "\<not> truthy None
   \<and> unlock \<lparr>serverTimestamp = 7, tx_fault = None, server_fault = None, local_fault = None\<rparr>
        None (Some ''streak1'') \<lparr>badges = Map.empty, inFlightUnlocks = {}, trace = []\<rparr>
     = (Inr (Skipped (Some ''streak1'') ''missing''),
        \<lparr>badges = Map.empty, inFlightUnlocks = {}, trace = []\<rparr>)"
  using unlock_missing_id [of None "Some ''streak1''"
      "\<lparr>serverTimestamp = 7, tx_fault = None, server_fault = None, local_fault = None\<rparr>"
      "\<lparr>badges = Map.empty, inFlightUnlocks = {}, trace = []\<rparr>"]
  by simp

text \<open>
  Claim C1. For every user and achievement id, \<^verbatim>\<open>unlock\<close> performs the existence check
  and the creation of the record inside one atomic store transaction (\<open>unlock_tx\<close>, one
  step on the store). With both ids present, the id not in flight (the in-flight set is
  empty between awaited calls, lemma \<open>unlock_inFlight\<close>) and the transaction committing:
  if the record exists nothing is written (the documents are unchanged and the call adds
  no creating write) and the result is \<^verbatim>\<open>deduped\<close>; if it is absent the record is created
  as \<^verbatim>\<open>{unlockedAt: serverTimestamp(), seen: false}\<close>, that is with \<^verbatim>\<open>unlockedAt\<close> set to
  the server's time, \<^verbatim>\<open>seen = false\<close> and no other field, and every other document is
  left as it was. Consequently a second call, whatever it meets, leaves the badge
  documents unchanged, and over any sequence of calls for the same pair, whatever faults
  occur, at most one write creates the record, at most one call reports a fresh unlock, and
  a record that exists at the start is never written again. (The store keys documents by
  their path \<open>(uid, badgeId)\<close>, so two documents with one key cannot exist; the theorem
  bounds the writes that create the one document.)
\<close>

theorem unlock_check_and_create_once:
  assumes "u \<noteq> []" and "b \<noteq> []" and "b \<notin> inFlightUnlocks s" and "tx_fault e = None"
  shows "unlock e (Some u) (Some b) s =
           (case badges s (u, b) of
              Some d \<Rightarrow> (Inr (Deduped b), s\<lparr>trace := trace s @ [RunTransaction u b, TxGet u b]\<rparr>)
            | None \<Rightarrow>
                (Inr (Unlocked b),
                 notify e b
                   (s\<lparr>badges := (badges s)((u, b) \<mapsto>
                          \<lparr>unlockedAt = Some (serverTimestamp e), seen = False, seenAt = None\<rparr>),
                      trace := trace s @
                        [RunTransaction u b, TxGet u b,
                         TxSet u b \<lparr>unlockedAt = Some (serverTimestamp e), seen = False,
                                    seenAt = None\<rparr>]\<rparr>)))
       \<and> (badges s (u, b) = None \<longrightarrow>
            badges (snd (unlock e (Some u) (Some b) s))
              = (badges s)((u, b) \<mapsto>
                  \<lparr>unlockedAt = Some (serverTimestamp e), seen = False, seenAt = None\<rparr>))
       \<and> (badges s (u, b) \<noteq> None \<longrightarrow>
            fst (unlock e (Some u) (Some b) s) = Inr (Deduped b)
            \<and> badges (snd (unlock e (Some u) (Some b) s)) = badges s
            \<and> filter (is_create u b) (trace (snd (unlock e (Some u) (Some b) s)))
                 = filter (is_create u b) (trace s))
       \<and> badges (snd (unlock e' (Some u) (Some b) (snd (unlock e (Some u) (Some b) s))))
           = badges (snd (unlock e (Some u) (Some b) s))
       \<and> length (filter (is_create u b) (trace (snd (unlock_calls es (Some u) (Some b) s))))
           \<le> Suc (length (filter (is_create u b) (trace s)))
       \<and> length (filter (\<lambda>r. r = Inr (Unlocked b)) (fst (unlock_calls es (Some u) (Some b) s))) \<le> 1
       \<and> (badges s (u, b) \<noteq> None \<longrightarrow> badges (snd (unlock_calls es (Some u) (Some b) s)) = badges s)"
proof -
  let ?first = "unlock e (Some u) (Some b) s"
  let ?doc = "\<lparr>unlockedAt = Some (serverTimestamp e), seen = False, seenAt = None\<rparr>"
  have nb: "new_badge e = ?doc" by (simp add: new_badge_def)
  have one: "?first =
           (case badges s (u, b) of
              Some d \<Rightarrow> (Inr (Deduped b), s\<lparr>trace := trace s @ [RunTransaction u b, TxGet u b]\<rparr>)
            | None \<Rightarrow>
                (Inr (Unlocked b),
                 notify e b (s\<lparr>badges := (badges s)((u, b) \<mapsto> ?doc),
                              trace := trace s @ [RunTransaction u b, TxGet u b, TxSet u b ?doc]\<rparr>)))"
    using assms unlock_deduped [of u b s e] unlock_created [of u b s e]
    by (cases "badges s (u, b)") (simp_all add: nb)
  then have stored: "badges s (u, b) = None \<longrightarrow> badges (snd ?first) = (badges s)((u, b) \<mapsto> ?doc)"
    by simp
  from one have kept: "badges s (u, b) \<noteq> None \<longrightarrow>
      fst ?first = Inr (Deduped b) \<and> badges (snd ?first) = badges s
      \<and> filter (is_create u b) (trace (snd ?first)) = filter (is_create u b) (trace s)"
    by (cases "badges s (u, b)") simp_all
  from one have "badges (snd ?first) (u, b) \<noteq> None"
    by (cases "badges s (u, b)") simp_all
  then obtain d where "badges (snd ?first) (the (Some u), the (Some b)) = Some d" by auto
  from unlock_present [OF this]
  have two: "badges (snd (unlock e' (Some u) (Some b) (snd ?first))) = badges (snd ?first)" .
  obtain rs s' where calls: "unlock_calls es (Some u) (Some b) s = (rs, s')"
    by (cases "unlock_calls es (Some u) (Some b) s")
  from unlock_calls_once [OF calls] unlock_calls_present [OF _ calls]
  have three: "length (filter (is_create u b) (trace s')) \<le> Suc (length (filter (is_create u b) (trace s)))"
    "length (filter (\<lambda>r. r = Inr (Unlocked b)) rs) \<le> 1"
    "badges s (u, b) \<noteq> None \<longrightarrow> badges s' = badges s"
    by auto
  show ?thesis
  proof (intro conjI)
    show "badges s (u, b) = None \<longrightarrow> badges (snd ?first) = (badges s)((u, b) \<mapsto> ?doc)"
      by (rule stored)
    show "badges s (u, b) \<noteq> None \<longrightarrow>
      fst ?first = Inr (Deduped b) \<and> badges (snd ?first) = badges s
      \<and> filter (is_create u b) (trace (snd ?first)) = filter (is_create u b) (trace s)"
      by (rule kept)
  qed (use one two three calls in simp_all)
qed

theorem unlock_check_and_create_once_witness:
  "''u1'' \<noteq> [] \<and> ''streak1'' \<noteq> [] \<and> ''streak1'' \<notin> inFlightUnlocks state0
   \<and> tx_fault quiet_env = None \<and> badges state0 (''u1'', ''streak1'') = None
   \<and> serverTimestamp quiet_env = 9
   \<and> fst (unlock quiet_env (Some ''u1'') (Some ''streak1'') state0) = Inr (Unlocked ''streak1'')
   \<and> badges (snd (unlock quiet_env (Some ''u1'') (Some ''streak1'') state0)) (''u1'', ''streak1'')
       = Some \<lparr>unlockedAt = Some 9, seen = False, seenAt = None\<rparr>
   \<and> unlockedAt (the (badges (snd (unlock quiet_env (Some ''u1'') (Some ''streak1'') state0))
                         (''u1'', ''streak1''))) = Some 9
   \<and> seen (the (badges (snd (unlock quiet_env (Some ''u1'') (Some ''streak1'') state0))
                   (''u1'', ''streak1''))) = False
   \<and> badges state1 (''u1'', ''streak1'') = Some \<lparr>unlockedAt = Some 7, seen = False, seenAt = None\<rparr>
   \<and> fst (unlock quiet_env (Some ''u1'') (Some ''streak1'') state1) = Inr (Deduped ''streak1'')
   \<and> badges (snd (unlock quiet_env (Some ''u1'') (Some ''streak1'') state1)) (''u1'', ''streak1'')
       = Some \<lparr>unlockedAt = Some 7, seen = False, seenAt = None\<rparr>
   \<and> badges (snd (unlock_calls [quiet_env, quiet_env] (Some ''u1'') (Some ''streak1'') state1))
       = badges state1"
proof -
  have h0: "''u1'' \<noteq> []" "''streak1'' \<noteq> []" "''streak1'' \<notin> inFlightUnlocks state0"
    "tx_fault quiet_env = None"
    and n0: "badges state0 (''u1'', ''streak1'') = None"
    and ts: "serverTimestamp quiet_env = 9"
    by (simp_all add: state0_def quiet_env_def)
  have h1: "''u1'' \<noteq> []" "''streak1'' \<noteq> []" "''streak1'' \<notin> inFlightUnlocks state1"
    "tx_fault quiet_env = None"
    and v1: "badges state1 (''u1'', ''streak1'') = Some \<lparr>unlockedAt = Some 7, seen = False, seenAt = None\<rparr>"
    by (simp_all add: state1_def quiet_env_def)
  from v1 have n1: "badges state1 (''u1'', ''streak1'') \<noteq> None" by simp
  note t0 = unlock_check_and_create_once [OF h0, where e' = quiet_env and es = "[]"]
  note t1 = unlock_check_and_create_once [OF h1, where e' = quiet_env and es = "[quiet_env, quiet_env]"]
  from t0 [THEN conjunct1] n0
  have a: "fst (unlock quiet_env (Some ''u1'') (Some ''streak1'') state0) = Inr (Unlocked ''streak1'')"
    by simp
  from t0 [THEN conjunct2, THEN conjunct1, THEN mp, OF n0]
  have b: "badges (snd (unlock quiet_env (Some ''u1'') (Some ''streak1'') state0)) (''u1'', ''streak1'')
       = Some \<lparr>unlockedAt = Some 9, seen = False, seenAt = None\<rparr>"
    by (simp add: ts)
  from t1 [THEN conjunct2, THEN conjunct2, THEN conjunct1, THEN mp, OF n1]
  have c: "fst (unlock quiet_env (Some ''u1'') (Some ''streak1'') state1) = Inr (Deduped ''streak1'')"
    "badges (snd (unlock quiet_env (Some ''u1'') (Some ''streak1'') state1)) = badges state1"
    by simp_all
  from t1 [THEN conjunct2, THEN conjunct2, THEN conjunct2, THEN conjunct2, THEN conjunct2,
      THEN conjunct2, THEN mp, OF n1]
  have d: "badges (snd (unlock_calls [quiet_env, quiet_env] (Some ''u1'') (Some ''streak1'') state1))
       = badges state1" .
  from a b c d h0 n0 ts v1 show ?thesis by simp
qed

text \<open>
  Claim C5. For every user and achievement id, when \<^verbatim>\<open>unlock\<close> reports
  \<^verbatim>\<open>deduped = true\<close> no notification path is invoked: the call adds neither a call of the
  server route nor of the local fallback to the trace. A call that does add a notification
  call is the call that created the record. Over any sequence of calls for the same pair
  the server route is called at most once and the local fallback at most once.
\<close>

theorem deduped_sends_no_notification:
  "(fst (unlock e (Some u) (Some b) s) = Inr (Deduped b) \<longrightarrow>
      filter is_notification (trace (snd (unlock e (Some u) (Some b) s))) = filter is_notification (trace s)
      \<and> badges (snd (unlock e (Some u) (Some b) s)) = badges s)
   \<and> (filter is_notification (trace (snd (unlock e (Some u) (Some b) s))) \<noteq> filter is_notification (trace s) \<longrightarrow>
        badges s (u, b) = None \<and> fst (unlock e (Some u) (Some b) s) = Inr (Unlocked b)
        \<and> badges (snd (unlock e (Some u) (Some b) s)) (u, b) = Some (new_badge e))
   \<and> length (filter is_server_notify (trace (snd (unlock_calls es (Some u) (Some b) s))))
        \<le> Suc (length (filter is_server_notify (trace s)))
   \<and> length (filter is_local_notify (trace (snd (unlock_calls es (Some u) (Some b) s))))
        \<le> Suc (length (filter is_local_notify (trace s)))"
proof -
  obtain r s1 where one: "unlock e (Some u) (Some b) s = (r, s1)"
    by (cases "unlock e (Some u) (Some b) s")
  obtain rs s' where calls: "unlock_calls es (Some u) (Some b) s = (rs, s')"
    by (cases "unlock_calls es (Some u) (Some b) s")
  from unlock_step [OF one]
  have "(r = Inr (Deduped b) \<longrightarrow> filter is_notification (trace s1) = filter is_notification (trace s)
           \<and> badges s1 = badges s)
      \<and> (filter is_notification (trace s1) \<noteq> filter is_notification (trace s) \<longrightarrow>
           badges s (u, b) = None \<and> r = Inr (Unlocked b) \<and> badges s1 (u, b) = Some (new_badge e))"
    by auto
  moreover from unlock_calls_once [OF calls, unfolded filter_server_of_notification filter_local_of_notification]
  have "length (filter is_server_notify (trace s')) \<le> Suc (length (filter is_server_notify (trace s)))"
    "length (filter is_local_notify (trace s')) \<le> Suc (length (filter is_local_notify (trace s)))"
    by simp_all
  ultimately show ?thesis using one calls by simp
qed


theorem deduped_sends_no_notification_witness:
  "fst (unlock quiet_env (Some ''u1'') (Some ''streak1'') state1) = Inr (Deduped ''streak1'')
   \<and> filter is_notification (trace (snd (unlock quiet_env (Some ''u1'') (Some ''streak1'') state1)))
       = filter is_notification (trace state1)
   \<and> filter is_notification (trace (snd (unlock quiet_env (Some ''u1'') (Some ''streak1'') state0)))
       \<noteq> filter is_notification (trace state0)
   \<and> fst (unlock quiet_env (Some ''u1'') (Some ''streak1'') state0) = Inr (Unlocked ''streak1'')"
proof -
  have d: "fst (unlock quiet_env (Some ''u1'') (Some ''streak1'') state1) = Inr (Deduped ''streak1'')"
    by (simp add: unlock_deduped state1_def quiet_env_def)
  have n: "filter is_notification (trace (snd (unlock quiet_env (Some ''u1'') (Some ''streak1'') state0)))
       \<noteq> filter is_notification (trace state0)"
    by (simp add: unlock_created notify_trace is_notification_def state0_def quiet_env_def)
  from d n deduped_sends_no_notification [of quiet_env "''u1''" "''streak1''" state1 "[]"]
    deduped_sends_no_notification [of quiet_env "''u1''" "''streak1''" state0 "[]"]
  show ?thesis by simp
qed

text \<open>
  Claim C6. After \<^verbatim>\<open>unlock\<close> has created the record, a failure of the notification
  step neither undoes the unlock nor makes \<^verbatim>\<open>unlock\<close> or the evaluator report failure:
  whatever the server route and the local fallback do (\<open>sf\<close> and \<open>lf\<close> are arbitrary, in
  particular both may throw), \<^verbatim>\<open>unlock\<close> returns \<^verbatim>\<open>{id}\<close> and the record is in the store;
  and when the evaluator's loop reaches that condition, the id is in the list the pass
  returns and the record is still in the store at the end of the pass.
  (Lemma \<open>unlock_error_is_tx_error\<close>: the only errors \<^verbatim>\<open>unlock\<close> ever returns are those
  of the transaction.)
\<close>

theorem notification_failure_keeps_unlock:
  assumes "u \<noteq> []" and "b \<noteq> []" and "b \<notin> inFlightUnlocks s"
    and "tx_fault e = None" and "badges s (u, b) = None"
  shows "fst (unlock (e\<lparr>server_fault := sf, local_fault := lf\<rparr>) (Some u) (Some b) s) = Inr (Unlocked b)
       \<and> badges (snd (unlock (e\<lparr>server_fault := sf, local_fault := lf\<rparr>) (Some u) (Some b) s))
           = (badges s)((u, b) \<mapsto> \<lparr>unlockedAt = Some (serverTimestamp e), seen = False, seenAt = None\<rparr>)
       \<and> (isUnlocked_fault env b = None \<and> check m
            \<and> unlock_env_of env b = e\<lparr>server_fault := sf, local_fault := lf\<rparr> \<longrightarrow>
            b \<in> set (fst (eval_loop env u m ((b, check) # rest) acc s))
            \<and> badges (snd (eval_loop env u m ((b, check) # rest) acc s)) (u, b)
                = Some \<lparr>unlockedAt = Some (serverTimestamp e), seen = False, seenAt = None\<rparr>)"
proof -
  let ?e = "e\<lparr>server_fault := sf, local_fault := lf\<rparr>"
  let ?d = "\<lparr>unlockedAt = Some (serverTimestamp e), seen = False, seenAt = None\<rparr>"
  let ?s1 = "notify ?e b (s\<lparr>badges := (badges s)((u, b) \<mapsto> new_badge ?e),
               trace := trace s @ [RunTransaction u b, TxGet u b, TxSet u b (new_badge ?e)]\<rparr>)"
  from assms have un: "unlock ?e (Some u) (Some b) s = (Inr (Unlocked b), ?s1)"
    by (intro unlock_created) simp_all
  have nb: "new_badge ?e = ?d" by (simp add: new_badge_def)
  have rec: "badges ?s1 (u, b) = Some ?d" by (simp add: nb)
  have loop: "b \<in> set (fst (eval_loop env u m ((b, check) # rest) acc s))
      \<and> badges (snd (eval_loop env u m ((b, check) # rest) acc s)) (u, b) = Some ?d"
    if h: "isUnlocked_fault env b = None" "check m" "unlock_env_of env b = ?e"
  proof -
    from h un assms(5)
    have step: "eval_loop env u m ((b, check) # rest) acc s = eval_loop env u m rest (acc @ [b]) ?s1"
      by (simp add: isUnlocked_def)
    from eval_loop_extends [of env u m rest "acc @ [b]" ?s1]
    obtain ids where "fst (eval_loop env u m rest (acc @ [b]) ?s1) = (acc @ [b]) @ ids" ..
    with step eval_loop_keeps_records [OF rec, of env u m rest "acc @ [b]"] show ?thesis by simp
  qed
  from un nb loop show ?thesis by simp
qed

theorem notification_failure_keeps_unlock_witness:
  "''u1'' \<noteq> [] \<and> ''streak1'' \<noteq> [] \<and> ''streak1'' \<notin> inFlightUnlocks state0
   \<and> tx_fault quiet_env = None \<and> badges state0 (''u1'', ''streak1'') = None
   \<and> server_fault failing_notifications_env \<noteq> None \<and> local_fault failing_notifications_env \<noteq> None
   \<and> fst (unlock failing_notifications_env (Some ''u1'') (Some ''streak1'') state0)
       = Inr (Unlocked ''streak1'')
   \<and> badges (snd (unlock failing_notifications_env (Some ''u1'') (Some ''streak1'') state0)) (''u1'', ''streak1'')
       = Some \<lparr>unlockedAt = Some 9, seen = False, seenAt = None\<rparr>
   \<and> ''streak1'' \<in> set (fst (eval_loop (env0\<lparr>unlock_env_of := (\<lambda>b. failing_notifications_env)\<rparr>) ''u1'' snapshot0
         [(''streak1'', \<lambda>m. streakDays m \<ge> 1)] [] state0))"
proof -
  have e: "quiet_env\<lparr>server_fault := Some (Err [] ''No ID token''),
                     local_fault := Some (Err [] ''No authenticated user'')\<rparr> = failing_notifications_env"
    by (simp add: quiet_env_def failing_notifications_env_def)
  have h: "''u1'' \<noteq> []" "''streak1'' \<noteq> []" "''streak1'' \<notin> inFlightUnlocks state0"
    "tx_fault quiet_env = None" "badges state0 (''u1'', ''streak1'') = None"
    by (simp_all add: state0_def quiet_env_def)
  have f: "server_fault failing_notifications_env \<noteq> None" "local_fault failing_notifications_env \<noteq> None"
    by (simp_all add: failing_notifications_env_def)
  have t: "serverTimestamp quiet_env = 9" by (simp add: quiet_env_def)
  have env: "isUnlocked_fault (env0\<lparr>unlock_env_of := (\<lambda>b. failing_notifications_env)\<rparr>) ''streak1'' = None"
    "unlock_env_of (env0\<lparr>unlock_env_of := (\<lambda>b. failing_notifications_env)\<rparr>) ''streak1''
       = failing_notifications_env"
    by (simp_all add: env0_def)
  note notification_failure_keeps_unlock [OF h,
      where sf = "Some (Err [] ''No ID token'')" and lf = "Some (Err [] ''No authenticated user'')"
        and env = "env0\<lparr>unlock_env_of := (\<lambda>b. failing_notifications_env)\<rparr>"
        and check = "\<lambda>m. streakDays m \<ge> 1" and m = snapshot0 and rest = "[]" and acc = "[]",
      unfolded e t]
  moreover have "streakDays snapshot0 \<ge> 1" by (simp add: snapshot0_def)
  ultimately show ?thesis using h f env by simp
qed

section \<open>The condition table\<close>

lemma streak_conditions_eval:
  "map (condition_holds m) streak_ids = map (\<lambda>t. t \<le> streakDays m) streak_thresholds"
  by (simp add: condition_holds_def conditions_def streak_ids_def streak_thresholds_def)

lemma streak_lengths: "length streak_thresholds = length streak_ids"
  by (simp add: streak_ids_def streak_thresholds_def)

lemma streak_condition_nth:
  assumes "j < length streak_ids"
  shows "condition_holds m (streak_ids ! j) = (streak_thresholds ! j \<le> streakDays m)"
proof -
  from assms have "condition_holds m (streak_ids ! j) = map (condition_holds m) streak_ids ! j"
    by simp
  also have "\<dots> = map (\<lambda>t. t \<le> streakDays m) streak_thresholds ! j"
    by (simp only: streak_conditions_eval)
  also from assms have "\<dots> = (streak_thresholds ! j \<le> streakDays m)"
    by (simp add: streak_lengths)
  finally show ?thesis .
qed

lemma streak_conditions_low:
  "condition_holds m ''streak1'' = (1 \<le> streakDays m)"
  "condition_holds m ''streak2'' = (2 \<le> streakDays m)"
  "condition_holds m ''streak3'' = (3 \<le> streakDays m)"
  "condition_holds m ''streak5'' = (5 \<le> streakDays m)"
  "condition_holds m ''streak10'' = (10 \<le> streakDays m)"
  "condition_holds m ''streak20'' = (20 \<le> streakDays m)"
  "condition_holds m ''streak30'' = (30 \<le> streakDays m)"
  using streak_conditions_eval [of m]
  by (simp_all add: streak_ids_def streak_thresholds_def)

text \<open>
  Claim C8. For every metric snapshot the streak conditions of the table are monotonic:
  listed in table order (\<open>streak1\<close>, \<open>streak2\<close>, \<open>streak3\<close>, \<open>streak5\<close>, ..., \<open>streak1000\<close>),
  a condition that holds implies every earlier one; in particular when the condition of
  \<open>streak30\<close> holds, those of \<open>streak1\<close>, \<open>streak2\<close>, \<open>streak3\<close>, \<open>streak5\<close>, \<open>streak10\<close>
  and \<open>streak20\<close> hold as well. No snapshot satisfies a higher threshold without the
  lower ones.
\<close>

theorem streak_conditions_monotone:
  "(i \<le> j \<and> j < length streak_ids \<and> condition_holds m (streak_ids ! j)
      \<longrightarrow> condition_holds m (streak_ids ! i))
   \<and> (condition_holds m ''streak30'' \<longrightarrow>
        condition_holds m ''streak1'' \<and> condition_holds m ''streak2'' \<and> condition_holds m ''streak3''
        \<and> condition_holds m ''streak5'' \<and> condition_holds m ''streak10'' \<and> condition_holds m ''streak20'')"
proof (intro conjI impI)
  assume a: "i \<le> j \<and> j < length streak_ids \<and> condition_holds m (streak_ids ! j)"
  have "sorted streak_thresholds" by (simp add: streak_thresholds_def)
  moreover from a have "j < length streak_thresholds"
    by (simp add: streak_lengths)
  ultimately have "streak_thresholds ! i \<le> streak_thresholds ! j"
    using a by (simp add: sorted_nth_mono)
  with a streak_condition_nth [of j m] streak_condition_nth [of i m]
  show "condition_holds m (streak_ids ! i)" by simp
qed (simp_all add: streak_conditions_low)

theorem streak_conditions_monotone_witness:
  "(0::nat) \<le> 6 \<and> 6 < length streak_ids \<and> streak_ids ! 6 = ''streak30'' \<and> streak_ids ! 0 = ''streak1''
   \<and> condition_holds (snapshot0\<lparr>streakDays := 31\<rparr>) ''streak30''
   \<and> condition_holds (snapshot0\<lparr>streakDays := 31\<rparr>) ''streak1''
   \<and> condition_holds (snapshot0\<lparr>streakDays := 31\<rparr>) ''streak20''"
proof -
  have h: "(0::nat) \<le> 6" "6 < length streak_ids" "streak_ids ! 6 = ''streak30''" "streak_ids ! 0 = ''streak1''"
    by (simp_all add: streak_ids_def)
  have c: "condition_holds (snapshot0\<lparr>streakDays := 31\<rparr>) ''streak30''"
    by (simp add: streak_conditions_low)
  from streak_conditions_monotone [of 0 6 "snapshot0\<lparr>streakDays := 31\<rparr>"] h c
  show ?thesis by simp
qed

section \<open>The leaderboard rank\<close>

lemma rank_fold:
  "foldl (rank_step uid) (rank, pos) xs =
     (case rank of
        Some r \<Rightarrow> Some r
      | None \<Rightarrow>
          (if \<exists>r \<in> set xs. docUid r = uid
           then Some (pos + Suc (length (takeWhile (\<lambda>r. docUid r \<noteq> uid) xs)))
           else None),
      pos + length xs)"
proof (induction xs arbitrary: rank pos)
  case Nil
  then show ?case by (simp split: option.splits)
next
  case (Cons x xs)
  have step: "rank_step uid (rank, pos) x =
      (if docUid x = uid \<and> rank = None then Some (Suc pos) else rank, Suc pos)"
    by (simp add: rank_step_def)
  show ?case
    by (simp add: step Cons.IH split: option.splits)
qed

lemma takeWhile_shorter:
  "\<exists>x \<in> set xs. \<not> P x \<Longrightarrow> length (takeWhile P xs) < length xs"
  by (induction xs) auto

lemma rank_fold_spec:
  "fst (foldl (rank_step uid) (None, 0) xs) = spec_rank xs uid"
  by (simp add: rank_fold spec_rank_def)

lemma spec_rank_bound:
  assumes "spec_rank xs uid = Some k"
  shows "1 \<le> k \<and> k \<le> length xs"
proof -
  from assms have ex: "\<exists>r \<in> set xs. docUid r = uid"
    and k: "k = Suc (length (takeWhile (\<lambda>r. docUid r \<noteq> uid) xs))"
    by (auto simp: spec_rank_def split: if_splits)
  from ex have "length (takeWhile (\<lambda>r. docUid r \<noteq> uid) xs) < length xs"
    by (intro takeWhile_shorter) simp
  with k show ?thesis by simp
qed

lemma spec_rank_match:
  assumes "spec_rank xs uid = Some k"
  shows "docUid (xs ! (k - 1)) = uid \<and> (\<forall>i < k - 1. docUid (xs ! i) \<noteq> uid)"
proof -
  let ?P = "\<lambda>r. docUid r \<noteq> uid"
  from assms have ex: "\<exists>r \<in> set xs. docUid r = uid"
    and k: "k = Suc (length (takeWhile ?P xs))"
    by (auto simp: spec_rank_def split: if_splits)
  from ex have lt: "length (takeWhile ?P xs) < length xs"
    by (intro takeWhile_shorter) simp
  then have "\<not> ?P (xs ! length (takeWhile ?P xs))"
    by (rule nth_length_takeWhile)
  moreover have "\<forall>i < length (takeWhile ?P xs). ?P (xs ! i)"
  proof (intro allI impI)
    fix i assume i: "i < length (takeWhile ?P xs)"
    then have "takeWhile ?P xs ! i \<in> set (takeWhile ?P xs)" by (rule nth_mem)
    then have "?P (takeWhile ?P xs ! i)" by (rule set_takeWhileD [THEN conjunct2])
    with i show "?P (xs ! i)" by (simp add: takeWhile_nth)
  qed
  ultimately show ?thesis using k by simp
qed


lemma orderBy_desc_sorted:
  "sorted (map (\<lambda>r. - the (lb_field f r)) (orderBy_desc f rows))"
  by (simp add: orderBy_desc_def)

lemma orderBy_desc_set:
  "set (orderBy_desc f rows) = {r \<in> set rows. lb_field f r \<noteq> None}"
  by (auto simp: orderBy_desc_def)

lemma orderBy_desc_mset:
  "mset (orderBy_desc f rows) = mset (filter (\<lambda>r. lb_field f r \<noteq> None) rows)"
  by (simp add: orderBy_desc_def)

text \<open>
  Claim C9. For every metric field and user id, the rank is computed from the first three
  rows of the row set ordered descending by that field (the rows that have the field,
  each exactly once, largest value first): it is the 1-based position of the first of
  these rows whose uid (the \<^verbatim>\<open>uid\<close> field, else the document id) is the user's, and
  \<^verbatim>\<open>null\<close> exactly when none of the three matches. The result is always one of
  1, 2, 3 or \<^verbatim>\<open>null\<close>. (A rejected read is passed on to the caller.)
\<close>

theorem leaderboard_rank_top3:
  "getLeaderboardRankTop3 None rows f uid = Inr (spec_rank (take 3 (orderBy_desc f rows)) uid)
   \<and> sorted (map (\<lambda>r. - the (lb_field f r)) (orderBy_desc f rows))
   \<and> mset (orderBy_desc f rows) = mset (filter (\<lambda>r. lb_field f r \<noteq> None) rows)
   \<and> getLeaderboardRankTop3 None rows f uid \<in> {Inr None, Inr (Some 1), Inr (Some 2), Inr (Some 3)}
   \<and> (getLeaderboardRankTop3 None rows f uid = Inr (Some k) \<longrightarrow>
        k - 1 < length (take 3 (orderBy_desc f rows))
        \<and> docUid (take 3 (orderBy_desc f rows) ! (k - 1)) = uid
        \<and> (\<forall>i < k - 1. docUid (take 3 (orderBy_desc f rows) ! i) \<noteq> uid))
   \<and> (getLeaderboardRankTop3 None rows f uid = Inr None \<longleftrightarrow>
        (\<forall>r \<in> set (take 3 (orderBy_desc f rows)). docUid r \<noteq> uid))"
proof -
  let ?top = "take 3 (orderBy_desc f rows)"
  have eq: "getLeaderboardRankTop3 None rows f uid = Inr (spec_rank ?top uid)"
    by (simp add: getLeaderboardRankTop3_def query_top3_def rank_fold_spec)
  have len: "length ?top \<le> 3" by simp
  have range: "spec_rank ?top uid \<in> {None, Some 1, Some 2, Some 3}"
  proof (cases "spec_rank ?top uid")
    case None
    then show ?thesis by simp
  next
    case (Some k)
    from spec_rank_bound [OF Some] len have "k = 1 \<or> k = 2 \<or> k = 3" by arith
    with Some show ?thesis by auto
  qed
  have pos: "k - 1 < length ?top \<and> docUid (?top ! (k - 1)) = uid \<and> (\<forall>i < k - 1. docUid (?top ! i) \<noteq> uid)"
    if "spec_rank ?top uid = Some k"
    using spec_rank_bound [OF that] spec_rank_match [OF that] by auto
  have none: "spec_rank ?top uid = None \<longleftrightarrow> (\<forall>r \<in> set ?top. docUid r \<noteq> uid)"
    by (simp add: spec_rank_def)
  from eq range pos none orderBy_desc_sorted [of f rows] orderBy_desc_mset [of f rows]
  show ?thesis by auto
qed

theorem leaderboard_rank_top3_witness:
  "getLeaderboardRankTop3 None leaderboard0 ''points'' ''c'' = Inr (Some 3)
   \<and> docUid (take 3 (orderBy_desc ''points'' leaderboard0) ! 2) = ''c''
   \<and> map docUid (take 3 (orderBy_desc ''points'' leaderboard0)) = [''b'', ''d'', ''c'']
   \<and> getLeaderboardRankTop3 None leaderboard0 ''points'' ''a'' = Inr None"
proof -
  have c: "getLeaderboardRankTop3 None leaderboard0 ''points'' ''c'' = Inr (Some 3)"
    by code_simp
  have a: "getLeaderboardRankTop3 None leaderboard0 ''points'' ''a'' = Inr None"
    by code_simp
  have m: "map docUid (take 3 (orderBy_desc ''points'' leaderboard0)) = [''b'', ''d'', ''c'']"
    by code_simp
  from leaderboard_rank_top3 [of leaderboard0 "''points''" "''c''" 3] c
  have "docUid (take 3 (orderBy_desc ''points'' leaderboard0) ! 2) = ''c''"
    by simp
  then show ?thesis using c a m by simp
qed

section \<open>Savings\<close>

text \<open>The rounding on some known values: 0.1, the first integers past \<open>2 ^ 53\<close>, and the
  divisions by zero.\<close>

lemma fl_examples:
  "fl (1 / 10) = Fin (3602879701896397 / 36028797018963968)
   \<and> fl (2 ^ 53 + 1) = Fin (2 ^ 53) \<and> fl (2 ^ 53 + 3) = Fin (2 ^ 53 + 4)
   \<and> fdiv (Fin 1) (Fin 0) = PInf \<and> fdiv (Fin 0) (Fin 0) = NaN
   \<and> fmul PInf (Fin 0) = NaN
   \<and> fmul (fmul (fdiv (Fin 1) (Fin 6)) (Fin 5)) (Fin 9) = Fin (8444249301319679 / 1125899906842624)
   \<and> (8444249301319679 / 1125899906842624 :: rat) < 15 / 2"
  by code_simp

lemma fl_not_NaN [simp]: "fl x \<noteq> NaN"
  by (simp add: fl_def Let_def)

lemma inf_of_NaN [simp]: "inf_of s = NaN \<longleftrightarrow> s = 0"
  by (simp add: inf_of_def)

lemma Math_round_NaN [simp]: "Math_round a = NaN \<longleftrightarrow> a = NaN"
  by (cases a) (simp_all add: Math_round_def)




lemma floor_half: "\<lfloor>(1::rat) / 2\<rfloor> = 0"
  by (simp add: floor_eq_iff)

lemma Math_round_zero [simp]: "Math_round (Fin 0) = Fin 0"
  by (simp add: Math_round_def floor_half)






text \<open>
  The product is rounded to a double after each operation, so the result can differ from
  the rounded exact value. One cigarette a day from packs of six at 5 a pack is exactly 7.5
  after 9 days, which rounds to 8; in doubles \<^verbatim>\<open>1 / 6 * 5 * 9\<close> is just below 7.5 and the
  result is 7. Three a day at 3 a pack of 20 is exactly 13.5 after 30 days; the result is 13.
\<close>

lemma savings_double_rounding:
  "computeSavingsEuros (Some profile_sixth) 9 = Fin 7
   \<and> round (of_int 9 * ((1::rat) / 6) * 5) = 8
   \<and> computeSavingsEuros (Some profile_no_pack) 30 = Fin 13
   \<and> round (of_int 30 * ((3::rat) / 20) * 3) = 14"
  by code_simp

text \<open>A negative field is truthy and enters the product: minus five cigarettes a day at 5 a
  pack of 20 gives -12 after 10 days (\<^verbatim>\<open>Math.round(-12.5)\<close>).\<close>

lemma savings_negative_field:
  "computeSavingsEuros (Some profile_negative) 10 = Fin (- 12)"
  by code_simp

text \<open>The result can be \<^verbatim>\<open>NaN\<close>: at a streak of 0 days an infinite intermediate product is
  multiplied by 0. Otherwise an infinite field gives an infinite amount.\<close>

lemma savings_NaN_example:
  "computeSavingsEuros (Some profile_infinite) 0 = NaN
   \<and> computeSavingsEuros (Some profile_infinite) 10 = PInf"
  by code_simp

text \<open>The same with finite fields: \<^verbatim>\<open>2 ** 600 / 20 * 2 ** 600\<close> overflows to \<^verbatim>\<open>Infinity\<close>, and
  \<^verbatim>\<open>Infinity * 0\<close> is \<^verbatim>\<open>NaN\<close>.\<close>

lemma savings_NaN_overflow:
  "computeSavingsEuros (Some profile_huge) 0 = NaN"
  by code_simp




section \<open>Writing a daily log\<close>

lemma map_of_setDoc_merge:
  "map_of (setDoc_merge k new ds) k =
     Some (case map_of ds k of None \<Rightarrow> new | Some old \<Rightarrow> merge_log new old)"
  by (induction ds) auto

lemma map_of_setDoc_merge_other:
  "k' \<noteq> k \<Longrightarrow> map_of (setDoc_merge k new ds) k' = map_of ds k'"
  by (induction ds) auto

lemma merge_field_Some [simp]: "merge_field (Some v) old = Some v"
  by (simp add: merge_field_def)

lemma normalized_fields:
  "date (normalized now d data) = Some d"
  "cigarettes_smoked (normalized now d data) = Some (cigCount data)"
  "smoke_free (normalized now d data) =
     Some (cigCount data = 0 \<and> Option.bind data smoke_free \<noteq> Some False)"
  by (auto simp: normalized_def Let_def split: option.splits)

lemma stored_fields:
  assumes "getDailyLog uid d (snd (upsertDailyLog None now uid d data st)) = Some e"
  shows "date e = Some d" "cigarettes_smoked e = Some (cigCount data)"
    "smoke_free e = Some (cigCount data = 0 \<and> Option.bind data smoke_free \<noteq> Some False)"
  using assms normalized_fields [of now d data]
  by (auto simp: getDailyLog_def upsertDailyLog_def map_of_setDoc_merge merge_log_def
      split: option.splits)

text \<open>
  Claim C7, as stated, fails: a caller that passes \<^verbatim>\<open>smoke_free: false\<close> together with
  \<^verbatim>\<open>cigarettes_smoked: 0\<close> gets \<^verbatim>\<open>data.smoke_free && cigCount === 0\<close>, which is
  \<^verbatim>\<open>false\<close>: the stored entry has \<^verbatim>\<open>smoke_free = false\<close> and
  \<^verbatim>\<open>cigarettes_smoked = 0\<close>.
\<close>

theorem upsert_explicit_false_counterexample:
  "Option.bind (Some log_false_zero) smoke_free = Some False
   \<and> Option.bind (Some log_false_zero) cigarettes_smoked = Some 0
   \<and> Option.bind (getDailyLog ''u1'' ''2024-01-05''
        (snd (upsertDailyLog None 5 ''u1'' ''2024-01-05'' (Some log_false_zero) no_logs))) smoke_free
       = Some False
   \<and> Option.bind (getDailyLog ''u1'' ''2024-01-05''
        (snd (upsertDailyLog None 5 ''u1'' ''2024-01-05'' (Some log_false_zero) no_logs))) cigarettes_smoked
       = Some 0"
  by (simp add: getDailyLog_def upsertDailyLog_def no_logs_def normalized_def log_false_zero_def
      cigCount_def)

text \<open>
  Claim C7, amended. For every daily-log write through \<^verbatim>\<open>upsertDailyLog\<close> that the store
  accepts, the stored entry has \<^verbatim>\<open>cigarettes_smoked\<close> equal to the count given (0 when
  none) and \<^verbatim>\<open>smoke_free\<close> true exactly when that count is 0 and the caller did not pass
  \<^verbatim>\<open>smoke_free: false\<close>. Hence \<^verbatim>\<open>smoke_free\<close> is true only when
  \<^verbatim>\<open>cigarettes_smoked\<close> is 0 (a true flag with a positive count is forced to false), and
  \<^verbatim>\<open>smoke_free == (cigarettes_smoked == 0)\<close> holds whenever the caller passes no boolean
  or passes \<^verbatim>\<open>true\<close>. A rejected write stores nothing.
\<close>

theorem upsert_smoke_free_guard:
  "(\<exists>e. getDailyLog uid d (snd (upsertDailyLog None now uid d data st)) = Some e
       \<and> cigarettes_smoked e = Some (cigCount data)
       \<and> smoke_free e = Some (cigCount data = 0 \<and> Option.bind data smoke_free \<noteq> Some False)
       \<and> (smoke_free e = Some True \<longrightarrow> cigarettes_smoked e = Some 0)
       \<and> (Option.bind data smoke_free \<noteq> Some False \<longrightarrow>
            smoke_free e = Some (cigarettes_smoked e = Some 0)))
   \<and> upsertDailyLog (Some x) now uid d data st = (Inl x, st)"
proof -
  obtain e where e: "getDailyLog uid d (snd (upsertDailyLog None now uid d data st)) = Some e"
    by (auto simp: getDailyLog_def upsertDailyLog_def map_of_setDoc_merge)
  from stored_fields [OF e] e show ?thesis by (auto simp: upsertDailyLog_def)
qed

theorem upsert_smoke_free_guard_witness:
  "Option.bind (Some log_flag_true_smoked) smoke_free \<noteq> Some False
   \<and> (\<exists>e. getDailyLog ''u1'' ''2024-01-05''
             (snd (upsertDailyLog None 5 ''u1'' ''2024-01-05'' (Some log_flag_true_smoked) no_logs)) = Some e
          \<and> cigarettes_smoked e = Some 2 \<and> smoke_free e = Some False)
   \<and> (\<exists>e. getDailyLog ''u1'' ''2024-01-05''
             (snd (upsertDailyLog None 5 ''u1'' ''2024-01-05'' (Some log_no_flag_zero) no_logs)) = Some e
          \<and> cigarettes_smoked e = Some 0 \<and> smoke_free e = Some True)"
proof -
  have h: "Option.bind (Some log_flag_true_smoked) smoke_free = Some True"
    "cigCount (Some log_flag_true_smoked) = 2"
    by (simp_all add: log_flag_true_smoked_def log_false_zero_def cigCount_def)
  have g: "Option.bind (Some log_no_flag_zero) smoke_free = None"
    "cigCount (Some log_no_flag_zero) = 0"
    by (simp_all add: log_no_flag_zero_def log_false_zero_def cigCount_def)
  from upsert_smoke_free_guard [of "''u1''" "''2024-01-05''" 5 "Some log_flag_true_smoked" no_logs] h
  have "\<exists>e. getDailyLog ''u1'' ''2024-01-05''
             (snd (upsertDailyLog None 5 ''u1'' ''2024-01-05'' (Some log_flag_true_smoked) no_logs)) = Some e
          \<and> cigarettes_smoked e = Some 2 \<and> smoke_free e = Some False"
    by auto
  moreover
  from upsert_smoke_free_guard [of "''u1''" "''2024-01-05''" 5 "Some log_no_flag_zero" no_logs] g
  have "\<exists>e. getDailyLog ''u1'' ''2024-01-05''
             (snd (upsertDailyLog None 5 ''u1'' ''2024-01-05'' (Some log_no_flag_zero) no_logs)) = Some e
          \<and> cigarettes_smoked e = Some 0 \<and> smoke_free e = Some True"
    by auto
  ultimately show ?thesis using h by simp
qed

section \<open>The evaluation pass and permission failures\<close>

lemma read_metrics_needs_reads:
  assumes "read_metrics env u = Inr m"
  shows "(\<exists>p. userDoc env = Inr p) \<and> count_fault env = None
       \<and> (\<forall>x. challenges env = Inl x \<longrightarrow> code x \<noteq> ''permission-denied'')
       \<and> leaderboard_fault env ''points'' = None \<and> leaderboard_fault env ''streak'' = None
       \<and> leaderboard_fault env ''saved'' = None
       \<and> (\<forall>p. userDoc env = Inr p \<and> truthy (quitIso_of p) \<longrightarrow> streak_fault env = None)"
proof -
  from assms have "(\<exists>p. userDoc env = Inr p) \<and> count_fault env = None
       \<and> (\<forall>x. challenges env = Inl x \<longrightarrow> code x \<noteq> ''permission-denied'')
       \<and> leaderboard_fault env ''points'' = None \<and> leaderboard_fault env ''streak'' = None
       \<and> leaderboard_fault env ''saved'' = None"
    by (auto simp: read_metrics_def bind_read_def await_def countDailyLogs_def completed_challenges_def
        getLeaderboardRankTop3_def split: sum.splits option.splits if_splits)
  moreover have "streak_fault env = None" if "userDoc env = Inr p" "truthy (quitIso_of p)" for p
  proof (rule ccontr)
    assume "streak_fault env \<noteq> None"
    then obtain x where "streak_fault env = Some x" by auto
    with that have "computeStreakFromQuit (tz env) (streak_fault env) (logDocs env)
        (quitIso_of p) (todayIso env) = Inl x"
      by (simp add: computeStreakFromQuit_def)
    with that assms show False
      by (simp add: read_metrics_def bind_read_def await_def)
  qed
  ultimately show ?thesis by blast
qed

lemma evaluate_aborted:
  "read_metrics env (the uid) = Inl a \<Longrightarrow> evaluateAndUnlockBadges env uid s = ([], s)"
proof (cases "\<not> truthy uid \<or> uid \<noteq> curUid env")
  case True
  then show ?thesis by (auto simp: evaluateAndUnlockBadges_def)
next
  case False
  assume "read_metrics env (the uid) = Inl a"
  with False show ?thesis
    unfolding evaluateAndUnlockBadges_def by (cases a) simp_all
qed


text \<open>
  Claim C4, as stated, fails inside the condition loop: the catch there returns
  \<^verbatim>\<open>newlyUnlocked\<close>, the ids collected so far, not an empty list. With a profile that has
  \<^verbatim>\<open>createdAt\<close>, \<open>welcome\<close> is unlocked first; when \<^verbatim>\<open>isUnlocked\<close> is then rejected
  with \<^verbatim>\<open>permission-denied\<close> at \<open>streak1\<close> (the user signed out), the pass returns
  \<^verbatim>\<open>["welcome"]\<close>.
\<close>

theorem evaluate_permission_counterexample:
  "is_permission_error permission_denied
   \<and> isUnlocked_fault env_signed_out_at_streak1 ''streak1'' = Some permission_denied
   \<and> fst (evaluateAndUnlockBadges env_signed_out_at_streak1 (Some ''u1'') state0) = [''welcome'']
   \<and> fst (evaluateAndUnlockBadges env_signed_out_at_streak1 (Some ''u1'') state0) \<noteq> []"
  by code_simp


text \<open>
  Claim C4, amended. \<^verbatim>\<open>evaluateAndUnlockBadges\<close> never raises (every branch of both
  catch blocks returns). It returns an empty list and leaves the state untouched when the
  requested uid is missing or is not the authenticated user, and when a read before the
  condition loop fails: the profile, the streak queries, the log count or a leaderboard
  read rejected with any error, or the challenges query rejected with
  \<^verbatim>\<open>permission-denied\<close>. When \<^verbatim>\<open>isUnlocked\<close> or \<^verbatim>\<open>unlock\<close> is rejected with a permission
  error inside the condition loop, the pass stops at that condition, writes no badge
  document there, and returns the ids collected so far in this pass, which need not be
  empty.
\<close>

theorem evaluate_quiet_exit:
  "((\<not> truthy uid \<or> uid \<noteq> curUid env) \<longrightarrow> evaluateAndUnlockBadges env uid s = ([], s))
   \<and> (((\<exists>x. userDoc env = Inl x) \<or> count_fault env \<noteq> None
         \<or> (\<exists>x. challenges env = Inl x \<and> code x = ''permission-denied'')
         \<or> leaderboard_fault env ''points'' \<noteq> None \<or> leaderboard_fault env ''streak'' \<noteq> None
         \<or> leaderboard_fault env ''saved'' \<noteq> None
         \<or> (\<exists>p. userDoc env = Inr p \<and> truthy (quitIso_of p) \<and> streak_fault env \<noteq> None)
         \<or> (\<exists>a. read_metrics env (the uid) = Inl a))
        \<longrightarrow> evaluateAndUnlockBadges env uid s = ([], s))
   \<and> (isUnlocked_fault env b = Some x \<and> is_permission_error x
        \<longrightarrow> eval_loop env u m ((b, check) # rest) acc s = (acc, s))
   \<and> (isUnlocked_fault env b = None \<and> badges s (u, b) = None \<and> check m
        \<and> fst (unlock (unlock_env_of env b) (Some u) (Some b) s) = Inl x \<and> is_permission_error x
        \<longrightarrow> eval_loop env u m ((b, check) # rest) acc s
              = (acc, snd (unlock (unlock_env_of env b) (Some u) (Some b) s))
            \<and> badges (snd (unlock (unlock_env_of env b) (Some u) (Some b) s)) = badges s)"
proof (intro conjI impI)
  assume "\<not> truthy uid \<or> uid \<noteq> curUid env"
  then show "evaluateAndUnlockBadges env uid s = ([], s)"
    by (auto simp: evaluateAndUnlockBadges_def)
next
  assume a: "(\<exists>x. userDoc env = Inl x) \<or> count_fault env \<noteq> None
         \<or> (\<exists>x. challenges env = Inl x \<and> code x = ''permission-denied'')
         \<or> leaderboard_fault env ''points'' \<noteq> None \<or> leaderboard_fault env ''streak'' \<noteq> None
         \<or> leaderboard_fault env ''saved'' \<noteq> None
         \<or> (\<exists>p. userDoc env = Inr p \<and> truthy (quitIso_of p) \<and> streak_fault env \<noteq> None)
         \<or> (\<exists>a. read_metrics env (the uid) = Inl a)"
  have "\<exists>a. read_metrics env (the uid) = Inl a"
  proof (cases "read_metrics env (the uid)")
    case (Inl a)
    then show ?thesis by simp
  next
    case (Inr m)
    from read_metrics_needs_reads [OF Inr] a Inr show ?thesis by auto
  qed
  then show "evaluateAndUnlockBadges env uid s = ([], s)"
    by (auto dest: evaluate_aborted)
next
  assume "isUnlocked_fault env b = Some x \<and> is_permission_error x"
  then show "eval_loop env u m ((b, check) # rest) acc s = (acc, s)"
    by (simp add: isUnlocked_def)
next
  assume a: "isUnlocked_fault env b = None \<and> badges s (u, b) = None \<and> check m
        \<and> fst (unlock (unlock_env_of env b) (Some u) (Some b) s) = Inl x \<and> is_permission_error x"
  obtain r s' where un: "unlock (unlock_env_of env b) (Some u) (Some b) s = (r, s')"
    by (cases "unlock (unlock_env_of env b) (Some u) (Some b) s")
  with a have r: "r = Inl x" by simp
  with a un show "eval_loop env u m ((b, check) # rest) acc s
              = (acc, snd (unlock (unlock_env_of env b) (Some u) (Some b) s))"
    by (simp add: isUnlocked_def)
  from unlock_step [OF un] r show "badges (snd (unlock (unlock_env_of env b) (Some u) (Some b) s)) = badges s"
    using un by auto
qed

theorem evaluate_quiet_exit_witness:
  "Some ''u1'' \<noteq> curUid (env0\<lparr>currentUser := None\<rparr>)
   \<and> evaluateAndUnlockBadges (env0\<lparr>currentUser := None\<rparr>) (Some ''u1'') state0 = ([], state0)
   \<and> userDoc (env0\<lparr>userDoc := Inl permission_denied\<rparr>) = Inl permission_denied
   \<and> evaluateAndUnlockBadges (env0\<lparr>userDoc := Inl permission_denied\<rparr>) (Some ''u1'') state0 = ([], state0)
   \<and> isUnlocked_fault env_signed_out_at_streak1 ''streak1'' = Some permission_denied
   \<and> is_permission_error permission_denied
   \<and> eval_loop env_signed_out_at_streak1 ''u1'' snapshot0
        [(''streak1'', \<lambda>m. streakDays m \<ge> 1), (''streak2'', \<lambda>m. streakDays m \<ge> 2)] [''welcome''] state0
       = ([''welcome''], state0)
   \<and> fst (unlock tx_denied_env (Some ''u1'') (Some ''streak1'') state0) = Inl permission_denied
   \<and> fst (eval_loop (env0\<lparr>unlock_env_of := (\<lambda>b. tx_denied_env)\<rparr>) ''u1'' snapshot0
        [(''streak1'', \<lambda>m. streakDays m \<ge> 1), (''streak2'', \<lambda>m. streakDays m \<ge> 2)] [''welcome''] state0)
       = [''welcome'']"
proof -
  let ?c1 = "\<lambda>m. streakDays m \<ge> 1" and ?rest = "[(''streak2'', \<lambda>m. streakDays m \<ge> 2)]"
  let ?envd = "env0\<lparr>unlock_env_of := (\<lambda>b. tx_denied_env)\<rparr>"
  have p: "is_permission_error permission_denied"
    by (simp add: is_permission_error_def permission_denied_def)
  have a: "Some ''u1'' \<noteq> curUid (env0\<lparr>currentUser := None\<rparr>)"
    by (simp add: curUid_def env0_def)
  have b: "userDoc (env0\<lparr>userDoc := Inl permission_denied\<rparr>) = Inl permission_denied"
    by simp
  have c: "isUnlocked_fault env_signed_out_at_streak1 ''streak1'' = Some permission_denied"
    by (simp add: env_signed_out_at_streak1_def)
  have d: "isUnlocked_fault ?envd ''streak1'' = None"
    "badges state0 (''u1'', ''streak1'') = None" "streakDays snapshot0 \<ge> 1"
    "unlock_env_of ?envd ''streak1'' = tx_denied_env"
    by (simp_all add: env0_def state0_def snapshot0_def)
  have e: "fst (unlock tx_denied_env (Some ''u1'') (Some ''streak1'') state0) = Inl permission_denied"
    by (simp add: unlock_faulted tx_denied_env_def quiet_env_def state0_def permission_denied_def)
  have r1: "evaluateAndUnlockBadges (env0\<lparr>currentUser := None\<rparr>) (Some ''u1'') state0 = ([], state0)"
    by (rule evaluate_quiet_exit [THEN conjunct1, THEN mp]) (simp add: a)
  have r2: "evaluateAndUnlockBadges (env0\<lparr>userDoc := Inl permission_denied\<rparr>) (Some ''u1'') state0 = ([], state0)"
    by (rule evaluate_quiet_exit [THEN conjunct2, THEN conjunct1, THEN mp]) (simp add: b)
  have r3: "eval_loop env_signed_out_at_streak1 ''u1'' snapshot0 ((''streak1'', ?c1) # ?rest) [''welcome''] state0
       = ([''welcome''], state0)"
    by (rule evaluate_quiet_exit [where x = permission_denied,
          THEN conjunct2, THEN conjunct2, THEN conjunct1, THEN mp]) (simp add: c p)
  have "eval_loop ?envd ''u1'' snapshot0 ((''streak1'', ?c1) # ?rest) [''welcome''] state0
      = ([''welcome''], snd (unlock (unlock_env_of ?envd ''streak1'') (Some ''u1'') (Some ''streak1'') state0))"
    by (rule evaluate_quiet_exit [where x = permission_denied,
          THEN conjunct2, THEN conjunct2, THEN conjunct2, THEN mp, THEN conjunct1]) (simp add: d e p env0_def)
  then have r4: "fst (eval_loop ?envd ''u1'' snapshot0 ((''streak1'', ?c1) # ?rest) [''welcome''] state0)
      = [''welcome'']"
    by (simp only: fst_conv)
  from a b c p e r1 r2 r3 r4 show ?thesis by (intro conjI)
qed

section \<open>The streak computation\<close>

lemma sorted_le_last:
  fixes ys :: "'a::linorder list"
  shows "sorted ys \<Longrightarrow> y \<in> set ys \<Longrightarrow> y \<le> last ys"
  by (induction ys) auto

lemma take1_rev_sort:
  fixes xs :: "'a::linorder list"
  shows "take 1 (rev (sort xs)) = (if xs = [] then [] else [Max (set xs)])"
proof (cases "xs = []")
  case True
  then show ?thesis by simp
next
  case False
  then have ne: "sort xs \<noteq> []" by (metis length_0_conv length_sort)
  have "last (sort xs) = Max (set xs)"
  proof (rule Max_eqI [symmetric])
    show "finite (set xs)" by simp
    show "last (sort xs) \<in> set xs" using ne last_in_set [of "sort xs"] by simp
    fix y assume "y \<in> set xs"
    then show "y \<le> last (sort xs)" using sorted_le_last [of "sort xs" y] by simp
  qed
  with ne have "hd (rev (sort xs)) = Max (set xs)" by (simp add: hd_rev)
  moreover from ne have "rev (sort xs) \<noteq> []" by simp
  ultimately show ?thesis using False by (cases "rev (sort xs)") auto
qed

lemma query_last_set:
  "set (map (\<lambda>d. the (date d)) (filter (\<lambda>d. P d \<and> in_range q t d) docs))
     = {x. \<exists>d \<in> set docs. date d = Some x \<and> q \<le> x \<and> x \<le> t \<and> P d}"
  by (auto simp: in_range_def image_iff split: option.splits) force

lemma query_last_eq:
  "query_last P q t docs =
     (let A = {x. \<exists>d \<in> set docs. date d = Some x \<and> q \<le> x \<and> x \<le> t \<and> P d}
      in if A = {} then [] else [Max A])"
proof -
  let ?xs = "map (\<lambda>d. the (date d)) (filter (\<lambda>d. P d \<and> in_range q t d) docs)"
  have "query_last P q t docs = (if ?xs = [] then [] else [Max (set ?xs)])"
    unfolding query_last_def by (rule take1_rev_sort)
  moreover have "?xs = [] \<longleftrightarrow> set ?xs = {}" by (rule set_empty [symmetric])
  ultimately show ?thesis by (simp only: query_last_set Let_def)
qed

lemma finite_query_set:
  "finite {x. \<exists>d \<in> set docs. date d = Some x \<and> q \<le> x \<and> x \<le> t \<and> P d}"
proof -
  have "{x. \<exists>d \<in> set docs. date d = Some x \<and> q \<le> x \<and> x \<le> t \<and> P d}
      \<subseteq> (\<lambda>d. the (date d)) ` set docs"
    by force
  then show ?thesis by (rule finite_subset) simp
qed

lemma candidates_head:
  fixes A B :: "'a::linorder set"
  assumes "finite A" "finite B"
  shows "(case rev (sort ((if A = {} then [] else [Max A]) @ (if B = {} then [] else [Max B]))) of
            [] \<Rightarrow> None | c # cs \<Rightarrow> Some c)
         = (if A \<union> B = {} then None else Some (Max (A \<union> B)))"
proof -
  have two: "(case rev (sort [a, b]) of [] \<Rightarrow> None | c # cs \<Rightarrow> Some c) = Some (max a b)" for a b :: 'a
    by (auto simp: max_def)
  show ?thesis
  proof (cases "A = {}"; cases "B = {}")
    assume "A \<noteq> {}" "B \<noteq> {}"
    with assms two [of "Max A" "Max B"] show ?thesis by (simp add: Max_Un)
  qed (use assms in simp_all)
qed

lemma last_slip_is_latest:
  assumes "computeStreakFromQuit off None docs (Some q) t = Inr r" and "q \<noteq> []"
  shows "last_slip_date r =
           (if slip_dates q t docs = {} then None else Some (Max (slip_dates q t docs)))"
proof -
  let ?A = "{x. \<exists>d \<in> set docs. date d = Some x \<and> q \<le> x \<and> x \<le> t \<and> is_slip_flag d}"
  let ?B = "{x. \<exists>d \<in> set docs. date d = Some x \<and> q \<le> x \<and> x \<le> t \<and> is_slip_cigs d}"
  have un: "?A \<union> ?B = slip_dates q t docs" by (auto simp: slip_dates_def)
  have "(case rev (sort (query_last is_slip_flag q t docs @ query_last is_slip_cigs q t docs)) of
           [] \<Rightarrow> None | c # cs \<Rightarrow> Some c)
        = (if ?A \<union> ?B = {} then None else Some (Max (?A \<union> ?B)))"
    unfolding query_last_eq Let_def
    by (rule candidates_head) (rule finite_query_set)+
  then have last: "(case rev (sort (query_last is_slip_flag q t docs @ query_last is_slip_cigs q t docs)) of
           [] \<Rightarrow> None | c # cs \<Rightarrow> Some c)
        = (if slip_dates q t docs = {} then None else Some (Max (slip_dates q t docs)))"
    by (simp only: un)
  from assms have "last_slip_date r =
      (case rev (sort (query_last is_slip_flag q t docs @ query_last is_slip_cigs q t docs)) of
           [] \<Rightarrow> None | c # cs \<Rightarrow> Some c)"
    by (auto simp: computeStreakFromQuit_def Let_def split: sum.splits if_splits)
  with last show ?thesis by simp
qed

lemma computeStreak_no_quit:
  "\<not> truthy quitIso \<Longrightarrow>
     computeStreakFromQuit off fault docs quitIso t =
       Inr \<lparr>current_streak_days = Some 0, streak_start_date = None, last_slip_date = None\<rparr>"
  by (simp add: computeStreakFromQuit_def)

lemma computeStreak_no_slip_start:
  assumes "computeStreakFromQuit off None docs (Some q) t = Inr r" and "q \<noteq> []"
    and "slip_dates q t docs = {}"
  shows "streak_start_date r = Some q \<and> last_slip_date r = None"
proof -
  from last_slip_is_latest [OF assms(1,2)] assms(3) have none: "last_slip_date r = None" by simp
  from assms(1,2) have "last_slip_date r = None \<longrightarrow> streak_start_date r = Some q"
    by (auto simp: computeStreakFromQuit_def Let_def split: sum.splits if_splits)
  with none show ?thesis by simp
qed

lemma computeStreak_days_nonneg:
  assumes "computeStreakFromQuit off fault docs quitIso t = Inr r" and "current_streak_days r = Some n"
  shows "0 \<le> n"
  using assms
  by (auto simp: computeStreakFromQuit_def Let_def diffDays_def
      split: sum.splits if_splits option.splits)

text \<open>
  The strings the Date constructor accepts: a year alone or a year and a month stand for
  the first day, an expanded year is read, a day past the end of the month is carried
  over, and a month 13 or the year \<^verbatim>\<open>-000000\<close> is an invalid Date. The last valid time
  value is 13 September 275760.
\<close>

lemma new_Date_local_examples:
  "new_Date_local (fixed_zone 0) ''2024-01-01'' = Some 1704067200000
   \<and> new_Date_local (fixed_zone 0) ''2024-01'' = Some 1704067200000
   \<and> new_Date_local (fixed_zone 0) ''2024'' = Some 1704067200000
   \<and> new_Date_local (fixed_zone 0) ''+002024-01-01'' = Some 1704067200000
   \<and> new_Date_local (fixed_zone 0) ''2024-02-30'' = new_Date_local (fixed_zone 0) ''2024-03-01''
   \<and> new_Date_local (fixed_zone 120) ''2024-01-01'' = Some 1704060000000
   \<and> new_Date_local (fixed_zone 0) ''2024-13-01'' = None
   \<and> new_Date_local (fixed_zone 0) ''-000000-01-01'' = None
   \<and> new_Date_local (fixed_zone 0) ''+275760-09-13'' = Some 8640000000000000
   \<and> new_Date_local (fixed_zone 0) ''+275760-09-14'' = None"
  by code_simp

text \<open>An invalid quit date gives \<^verbatim>\<open>NaN\<close> days; an invalid slip date makes \<^verbatim>\<open>toISOString\<close>
  throw.\<close>

lemma computeStreak_invalid_dates:
  "computeStreakFromQuit (fixed_zone 0) None [] (Some ''2023-13-01'') ''2024-01-10'' =
     Inr \<lparr>current_streak_days = None, streak_start_date = Some ''2023-13-01'', last_slip_date = None\<rparr>
   \<and> nextDay (fixed_zone 0) ''2023-13-01'' = Inl (Err [] ''Invalid time value'')"
  by code_simp

text \<open>
  The difference is taken between two local midnights, so a day of 23 hours in between
  costs a day: in New York, from 9 March 2024 to 11 March 2024 across the start of
  daylight-saving time, the streak is one day; with a fixed offset it is two.
\<close>

lemma computeStreak_across_dst:
  "computeStreakFromQuit new_york_spring_2024 None [] (Some ''2024-03-09'') ''2024-03-11'' =
     Inr \<lparr>current_streak_days = Some 1, streak_start_date = Some ''2024-03-09'',
          last_slip_date = None\<rparr>
   \<and> computeStreakFromQuit (fixed_zone (- 300)) None [] (Some ''2024-03-09'') ''2024-03-11'' =
     Inr \<lparr>current_streak_days = Some 2, streak_start_date = Some ''2024-03-09'',
          last_slip_date = None\<rparr>"
  by code_simp

text \<open>
  The example of the specification, run where local time is UTC or behind it: the streak
  starts on the day after the slip and is four days long.
\<close>

lemma computeStreak_example_utc:
  "computeStreakFromQuit (fixed_zone 0) None [slip_jan5] (Some ''2024-01-01'') ''2024-01-10'' =
     Inr \<lparr>current_streak_days = Some 4, streak_start_date = Some ''2024-01-06'',
          last_slip_date = Some ''2024-01-05''\<rparr>"
  by code_simp

lemma computeStreak_example_west:
  "computeStreakFromQuit (fixed_zone (- 300)) None [slip_jan5] (Some ''2024-01-01'') ''2024-01-10'' =
     Inr \<lparr>current_streak_days = Some 4, streak_start_date = Some ''2024-01-06'',
          last_slip_date = Some ''2024-01-05''\<rparr>"
  by code_simp

lemma nextDay_east_of_utc: "nextDay (fixed_zone 120) ''2024-01-05'' = Inr ''2024-01-05''"
  by code_simp

text \<open>
  Claim C2. The claim: without a quit date the result is \<open>{0, null, null}\<close>; otherwise
  \<^verbatim>\<open>last_slip_date\<close> is the latest slip date in \<open>[quitDate, today]\<close>, \<^verbatim>\<open>streak_start_date\<close>
  is the quit date when there is no slip and otherwise the calendar day after the last slip,
  and \<^verbatim>\<open>current_streak_days\<close> is the whole-day difference to today; with quit date
  2024-01-01, a slip on 2024-01-05 and evaluation on 2024-01-10 the result is start
  2024-01-06, last slip 2024-01-05, four days.

  The code computes the day after the slip as
  \<^verbatim>\<open>new Date(iso + "T00:00:00")\<close>, \<^verbatim>\<open>setDate(getDate() + 1)\<close>, \<^verbatim>\<open>toISOString().slice(0, 10)\<close>:
  local midnight of the next day, printed as a UTC date. Where local time is ahead of UTC
  that instant still lies on the slip day in UTC, so \<^verbatim>\<open>nextDay\<close> returns the slip day
  itself. With the runtime two hours ahead of UTC the example gives start 2024-01-05 and
  five days, although the code's own comment reads "day after the most recent slip".
\<close>

theorem computeStreak_east_of_utc:
  "computeStreakFromQuit (fixed_zone 120) None [slip_jan5] (Some ''2024-01-01'') ''2024-01-10'' =
     Inr \<lparr>current_streak_days = Some 5, streak_start_date = Some ''2024-01-05'',
          last_slip_date = Some ''2024-01-05''\<rparr>"
  by code_simp

end
